theory Spec2Isabelle
  imports Complex_Main
begin

section \<open>The simulation core of game.js\<close>

text \<open>
  The JavaScript numbers of the game (IEEE doubles) are modelled as exact reals: rounding
  and the infinities are outside the model, and so is NaN, except in the velocity step
  \<open>updateVelocity\<close> below. The canvas size is a pair of naturals
  (\<open>window.innerWidth\<close>, \<open>window.innerHeight\<close>). Rendering and the celebration particles
  are cosmetic and are not part of the state; the draws they take from \<open>Math.random\<close> are.
\<close>

subsection \<open>Constants (game.js, lines 2-11)\<close>

definition TARGET_FPS :: real where "TARGET_FPS = 60"
definition FRAME_TIME :: real where "FRAME_TIME = 1000 / TARGET_FPS"
definition GRAVITY :: real where "GRAVITY = 55 / 100"
definition FLAP_STRENGTH :: real where "FLAP_STRENGTH = - (75 / 10)"
definition MAX_FALL_SPEED :: real where "MAX_FALL_SPEED = 10"
definition PIPE_SPEED :: real where "PIPE_SPEED = 32 / 10"
definition PIPE_GAP :: real where "PIPE_GAP = 125"
definition PIPE_WIDTH :: real where "PIPE_WIDTH = 80"
definition PIPE_SPACING :: real where "PIPE_SPACING = 200"
definition BIRD_SIZE :: real where "BIRD_SIZE = 40"

subsection \<open>Game state (lines 14-23)\<close>

record bird =
  x :: real
  y :: real
  velocity :: real
  rotation :: real

record pipe =
  x :: real
  topHeight :: real
  passed :: bool

text \<open>The four values of the string \<open>gameState\<close>: 'splash', 'start', 'playing', 'gameover'.\<close>

datatype phase = Splash | Start | Playing | Gameover

text \<open>
  \<open>localStorage\<close> is the trace of the values passed to
  \<open>localStorage.setItem('flappyHighScore', _)\<close>, oldest first. \<open>randoms\<close> is the stream of
  the results that the coming calls of \<open>Math.random()\<close> return.
\<close>

record game =
  canvas_width :: nat
  canvas_height :: nat
  bird :: bird
  pipes :: "pipe list"
  score :: nat
  highScore :: nat
  gameState :: phase
  groundY :: real
  isNewHighScore :: bool
  localStorage :: "nat list"
  randoms :: "nat \<Rightarrow> real"

subsection \<open>resizeCanvas, resetGame, init, handleInput (lines 44-98)\<close>

definition resizeCanvas :: "nat \<Rightarrow> nat \<Rightarrow> game \<Rightarrow> game" where
  "resizeCanvas innerWidth innerHeight s =
     s\<lparr>canvas_width := innerWidth, canvas_height := innerHeight,
       groundY := real innerHeight - 80\<rparr>"

definition resetGame :: "game \<Rightarrow> game" where
  "resetGame s =
     s\<lparr>bird := \<lparr>bird.x = real (canvas_width s) * (2 / 10),
                 y = real (canvas_height s) / 2,
                 velocity = 0,
                 rotation = 0\<rparr>,
       pipes := [],
       score := 0,
       isNewHighScore := False\<rparr>"

text \<open>
  The state when \<open>init\<close> has run, before the first frame. \<open>stored\<close> is what
  \<open>localStorage.getItem('flappyHighScore')\<close> returns at load: \<open>None\<close> for null, else the
  number that an earlier session wrote (line 18: \<open>getItem(...) || 0\<close>).
\<close>

definition init :: "nat \<Rightarrow> nat \<Rightarrow> nat option \<Rightarrow> (nat \<Rightarrow> real) \<Rightarrow> game" where
  "init innerWidth innerHeight stored rnd =
     resetGame (resizeCanvas innerWidth innerHeight
       \<lparr>canvas_width = 0, canvas_height = 0,
        bird = \<lparr>bird.x = 0, y = 0, velocity = 0, rotation = 0\<rparr>,
        pipes = [],
        score = 0,
        highScore = (case stored of None \<Rightarrow> 0 | Some n \<Rightarrow> n),
        gameState = Splash,
        groundY = 0,
        isNewHighScore = False,
        localStorage = [],
        randoms = rnd\<rparr>)"

definition handleInput :: "game \<Rightarrow> game" where
  "handleInput s =
     (case gameState s of
        Splash \<Rightarrow> s\<lparr>gameState := Start\<rparr>
      | Start \<Rightarrow> s\<lparr>gameState := Playing, bird := (bird s)\<lparr>velocity := FLAP_STRENGTH\<rparr>\<rparr>
      | Playing \<Rightarrow> s\<lparr>bird := (bird s)\<lparr>velocity := FLAP_STRENGTH\<rparr>\<rparr>
      | Gameover \<Rightarrow> (resetGame s)\<lparr>gameState := Start\<rparr>)"

subsection \<open>Spawning obstacles (lines 100-123)\<close>

definition Math_random :: "game \<Rightarrow> real \<times> game" where
  "Math_random s = (randoms s 0, s\<lparr>randoms := (\<lambda>n. randoms s (Suc n))\<rparr>)"

definition spawnPipe :: "game \<Rightarrow> game" where
  "spawnPipe s =
     (let minHeight = 80;
          maxHeight = groundY s - PIPE_GAP - minHeight;
          (r, s1) = Math_random s;
          top = r * (maxHeight - minHeight) + minHeight
      in s1\<lparr>pipes := pipes s1 @
            [\<lparr>pipe.x = real (canvas_width s1), topHeight = top, passed = False\<rparr>]\<rparr>)"

definition spawnFirstPipe :: "game \<Rightarrow> game" where
  "spawnFirstPipe s =
     (let minHeight = 80;
          maxHeight = groundY s - PIPE_GAP - minHeight;
          (r, s1) = Math_random s;
          top = r * (maxHeight - minHeight) + minHeight
      in s1\<lparr>pipes := pipes s1 @
            [\<lparr>pipe.x = real (canvas_width s1) * (65 / 100), topHeight = top,
              passed = False\<rparr>]\<rparr>)"

subsection \<open>Collision detection (lines 185-219)\<close>

definition gameOver :: "game \<Rightarrow> game" where
  "gameOver s = s\<lparr>gameState := Gameover\<rparr>"

definition birdLeft :: "game \<Rightarrow> real" where
  "birdLeft s = bird.x (bird s) - BIRD_SIZE / 2 + 5"

definition birdRight :: "game \<Rightarrow> real" where
  "birdRight s = bird.x (bird s) + BIRD_SIZE / 2 - 5"

definition birdTop :: "game \<Rightarrow> real" where
  "birdTop s = y (bird s) - BIRD_SIZE / 2 + 5"

definition birdBottom :: "game \<Rightarrow> real" where
  "birdBottom s = y (bird s) + BIRD_SIZE / 2 - 5"

text \<open>The loop \<open>for (const pipe of pipes)\<close> of lines 198-214; it returns at the first hit.\<close>

fun checkPipes :: "game \<Rightarrow> pipe list \<Rightarrow> game" where
  "checkPipes s [] = s"
| "checkPipes s (p # ps) =
     (let pipeLeft = pipe.x p;
          pipeRight = pipe.x p + PIPE_WIDTH
      in if birdRight s > pipeLeft \<and> birdLeft s < pipeRight then
           (if birdTop s < topHeight p then gameOver s
            else if birdBottom s > topHeight p + PIPE_GAP then gameOver s
            else checkPipes s ps)
         else checkPipes s ps)"

definition checkCollisions :: "game \<Rightarrow> game" where
  "checkCollisions s =
     (if y (bird s) + BIRD_SIZE / 2 > groundY s \<or> y (bird s) - BIRD_SIZE / 2 < 0
      then gameOver s
      else checkPipes s (pipes s))"

subsection \<open>update (lines 125-183)\<close>

text \<open>
  \<open>spawnCelebration\<close> (lines 221-235) pushes 50 particles and draws seven random numbers
  for each of them; of this only the 350 draws are kept.
\<close>

definition spawnCelebration :: "game \<Rightarrow> game" where
  "spawnCelebration s = s\<lparr>randoms := (\<lambda>n. randoms s (n + 350))\<rparr>"

text \<open>Lines 141-148: gravity, the fall-speed clamp, the move and the rotation.\<close>

definition updateBird :: "real \<Rightarrow> bird \<Rightarrow> bird" where
  "updateBird dt b =
     (let v = velocity b + GRAVITY * dt;
          v = (if v > MAX_FALL_SPEED then MAX_FALL_SPEED else v)
      in b\<lparr>velocity := v,
           y := y b + v * dt,
           rotation := min (max (v * 4) (- 25)) 90\<rparr>)"

text \<open>Lines 161-172, the body of the test \<open>!passed && x + PIPE_WIDTH < bird.x\<close> after the flag.\<close>

definition scorePoint :: "game \<Rightarrow> game" where
  "scorePoint s =
     (let s1 = s\<lparr>score := score s + 1\<rparr>
      in if score s1 > highScore s1 then
           (let s2 = (if \<not> isNewHighScore s1
                      then spawnCelebration (s1\<lparr>isNewHighScore := True\<rparr>) else s1);
                s3 = s2\<lparr>highScore := score s2\<rparr>
            in s3\<lparr>localStorage := localStorage s3 @ [highScore s3]\<rparr>)
         else s1)"

text \<open>
  Lines 156-179: the loop runs from the last index down to 0, so the tail of the list is
  handled before its head; a spliced pipe is left out of the result.
\<close>

fun updatePipes :: "real \<Rightarrow> pipe list \<Rightarrow> game \<Rightarrow> pipe list \<times> game" where
  "updatePipes dt [] s = ([], s)"
| "updatePipes dt (p # ps) s =
     (let (ps', s1) = updatePipes dt ps s;
          p1 = p\<lparr>pipe.x := pipe.x p - PIPE_SPEED * dt\<rparr>;
          (p2, s2) = (if \<not> passed p1 \<and> pipe.x p1 + PIPE_WIDTH < bird.x (bird s1)
                      then (p1\<lparr>passed := True\<rparr>, scorePoint s1) else (p1, s1))
      in if pipe.x p2 + PIPE_WIDTH < 0 then (ps', s2) else (p2 # ps', s2))"

definition scrollPipes :: "real \<Rightarrow> game \<Rightarrow> game" where
  "scrollPipes dt s = (let (ps', s') = updatePipes dt (pipes s) s in s'\<lparr>pipes := ps'\<rparr>)"

definition update :: "game \<Rightarrow> real \<Rightarrow> game" where
  "update s deltaTime =
     (if gameState s \<noteq> Playing then s
      else
        let s1 = (if pipes s = [] then spawnFirstPipe s else s);
            dt = min deltaTime 100 / FRAME_TIME;
            s2 = s1\<lparr>bird := updateBird dt (bird s1)\<rparr>;
            s3 = (if pipes s2 = [] \<or>
                     pipe.x (last (pipes s2)) < real (canvas_width s2) - PIPE_SPACING
                  then spawnPipe s2 else s2);
            s4 = scrollPipes dt s3
        in checkCollisions s4)"

subsection \<open>The velocity step on numbers that may be NaN\<close>

text \<open>
  \<open>gameLoop\<close> computes \<open>timestamp - lastTime\<close> (line 619); its first call has no timestamp
  (line 62) and leaves \<open>lastTime\<close> undefined, so the first two frames pass NaN to \<open>update\<close>.
  A number is here NaN or a real, and the operators of lines 138-144 are the JavaScript ones:
  arithmetic and \<open>Math.min\<close> give NaN as soon as an argument is NaN, and a comparison with
  NaN is false. The only divisor met is \<open>FRAME_TIME\<close>, which is not zero.
\<close>

datatype number = NaN | Num real

definition Math_min :: "number \<Rightarrow> number \<Rightarrow> number" where
  "Math_min a b = (case (a, b) of (Num p, Num q) \<Rightarrow> Num (min p q) | _ \<Rightarrow> NaN)"

definition js_divide :: "number \<Rightarrow> number \<Rightarrow> number" where
  "js_divide a b = (case (a, b) of (Num p, Num q) \<Rightarrow> Num (p / q) | _ \<Rightarrow> NaN)"

definition js_times :: "number \<Rightarrow> number \<Rightarrow> number" where
  "js_times a b = (case (a, b) of (Num p, Num q) \<Rightarrow> Num (p * q) | _ \<Rightarrow> NaN)"

definition js_plus :: "number \<Rightarrow> number \<Rightarrow> number" where
  "js_plus a b = (case (a, b) of (Num p, Num q) \<Rightarrow> Num (p + q) | _ \<Rightarrow> NaN)"

definition js_greater :: "number \<Rightarrow> number \<Rightarrow> bool" where
  "js_greater a b = (case (a, b) of (Num p, Num q) \<Rightarrow> p > q | _ \<Rightarrow> False)"

definition js_less_eq :: "number \<Rightarrow> number \<Rightarrow> bool" where
  "js_less_eq a b = (case (a, b) of (Num p, Num q) \<Rightarrow> p \<le> q | _ \<Rightarrow> False)"

text \<open>
  What \<open>update\<close> does to \<open>bird.velocity\<close>: the early return of line 129, the scale of
  line 138, gravity (line 141) and the fall-speed clamp (lines 142-144).
\<close>

definition updateVelocity :: "phase \<Rightarrow> number \<Rightarrow> number \<Rightarrow> number" where
  "updateVelocity state velocity0 deltaTime =
     (if state \<noteq> Playing then velocity0
      else
        let dt = js_divide (Math_min deltaTime (Num 100)) (Num FRAME_TIME);
            v = js_plus velocity0 (js_times (Num GRAVITY) dt)
        in if js_greater v (Num MAX_FALL_SPEED) then Num MAX_FALL_SPEED else v)"

subsection \<open>Runs of the program\<close>

text \<open>
  What the page does to the state after \<open>init\<close>: a frame calls \<open>update\<close>, a click, touch or
  key calls \<open>handleInput\<close>, a resize of the window calls \<open>resizeCanvas\<close>.
\<close>

datatype event = Update real | Input | Resize nat nat

fun step :: "game \<Rightarrow> event \<Rightarrow> game" where
  "step s (Update deltaTime) = update s deltaTime"
| "step s Input = handleInput s"
| "step s (Resize w h) = resizeCanvas w h s"

definition run :: "game \<Rightarrow> event list \<Rightarrow> game" where
  "run s evs = foldl step s evs"

subsection \<open>Auxiliary notions used to state the properties\<close>

text \<open>The scale factor of line 138.\<close>

definition timeScale :: "real \<Rightarrow> real" where
  "timeScale deltaTime = min deltaTime 100 / FRAME_TIME"

text \<open>The state in which the loop of line 156 starts: lines 131-153 have run.\<close>

definition beforeLoop :: "game \<Rightarrow> real \<Rightarrow> game" where
  "beforeLoop s deltaTime =
     (let s1 = (if pipes s = [] then spawnFirstPipe s else s);
          s2 = s1\<lparr>bird := updateBird (timeScale deltaTime) (bird s1)\<rparr>
      in if pipes s2 = [] \<or>
            pipe.x (last (pipes s2)) < real (canvas_width s2) - PIPE_SPACING
         then spawnPipe s2 else s2)"

text \<open>
  What the loop of lines 156-179 does to one pipe, with \<open>bx\<close> the bird's \<open>x\<close>: the pipe
  scores in this frame (\<open>crossing\<close>), and the pipe as the frame leaves it (\<open>movePipe\<close>).
\<close>

definition crossing :: "real \<Rightarrow> real \<Rightarrow> pipe \<Rightarrow> bool" where
  "crossing dt bx p = (\<not> passed p \<and> pipe.x p - PIPE_SPEED * dt + PIPE_WIDTH < bx)"

definition movePipe :: "real \<Rightarrow> real \<Rightarrow> pipe \<Rightarrow> pipe" where
  "movePipe dt bx p =
     p\<lparr>pipe.x := pipe.x p - PIPE_SPEED * dt,
       passed := (passed p \<or> pipe.x p - PIPE_SPEED * dt + PIPE_WIDTH < bx)\<rparr>"

subsection \<open>Concrete runs\<close>

text \<open>
  A random source that always returns one half, a round on a canvas of 400 by 600 that has
  just been started by two inputs, and the same round after eight frames of 100 ms without
  a flap, when the bird has hit the ground.
\<close>

definition half :: "nat \<Rightarrow> real" where "half n = 1 / 2"

definition playing0 :: game where
  "playing0 = run (init 400 600 None half) [Input, Input]"

definition crashed0 :: game where
  "crashed0 = run playing0 (replicate 8 (Update 100))"

text \<open>
  A round just started on a canvas of 568 by 320 (a phone held sideways).
\<close>

definition landscape0 :: game where
  "landscape0 = run (init 568 320 None half) [Input, Input]"

text \<open>
  The round \<open>playing0\<close> after seven frames of 100 ms without a flap.
\<close>

definition nearGround :: game where
  "nearGround = run playing0 (replicate 7 (Update 100))"

text \<open>
  The collision test as the specification words it, with the inset box in both checks:
  the box leaves the screen at the ground line or at the top, or it overlaps a pipe
  horizontally and reaches above its gap or below it.
\<close>

definition insetCollision :: "game \<Rightarrow> bool" where
  "insetCollision s =
     (birdBottom s > groundY s \<or> birdTop s < 0 \<or>
      (\<exists>p\<in>set (pipes s).
         birdRight s > pipe.x p \<and> birdLeft s < pipe.x p + PIPE_WIDTH \<and>
         (birdTop s < topHeight p \<or> birdBottom s > topHeight p + PIPE_GAP)))"

text \<open>
  The round \<open>playing0\<close> after thirteen frames of 100 ms and three flaps: the bird is in the
  gap of the first pipe, whose right edge passes the bird in the next frame.
\<close>

definition scoring0 :: game where
  "scoring0 = run playing0
     [Update 100, Update 100, Update 100, Input,
      Update 100, Update 100, Update 100, Update 100, Input,
      Update 100, Update 100, Update 100, Input,
      Update 100, Update 100, Update 100]"

text \<open>
  A page loaded in a window 3440 wide, then narrowed to 600, then started.
\<close>

definition wide0 :: game where
  "wide0 = run (init 3440 1440 None half) [Resize 600 1440, Input, Input]"

text \<open>
  An invariant of the runs in which the window keeps its width \<open>w\<close>: the bird stands at a
  fifth of the width, consecutive pipes are more than \<open>PIPE_SPACING\<close> apart, and a pipe that
  is not passed has its right edge not yet left of the bird.
\<close>

definition spaced :: "nat \<Rightarrow> game \<Rightarrow> bool" where
  "spaced w s \<longleftrightarrow>
     canvas_width s = w \<and>
     bird.x (bird s) = real w * (2 / 10) \<and>
     sorted_wrt (\<lambda>p q. pipe.x p + PIPE_SPACING < pipe.x q) (pipes s) \<and>
     (\<forall>p\<in>set (pipes s). passed p \<or> bird.x (bird s) \<le> pipe.x p + PIPE_WIDTH)"

section \<open>Properties\<close>

subsection \<open>Basic facts\<close>

lemmas constants =
  TARGET_FPS_def FRAME_TIME_def GRAVITY_def FLAP_STRENGTH_def MAX_FALL_SPEED_def
  PIPE_SPEED_def PIPE_GAP_def PIPE_WIDTH_def PIPE_SPACING_def BIRD_SIZE_def

lemma run_Nil [simp]: "run s [] = s"
  by (simp add: run_def)

lemma run_Cons [simp]: "run s (e # evs) = run (step s e) evs"
  by (simp add: run_def)

lemma run_snoc: "run s (evs @ [e]) = step (run s evs) e"
  by (simp add: run_def)

lemma run_append: "run s (as @ bs) = run (run s as) bs"
  by (simp add: run_def)

lemma init_bird [simp]:
  "bird (init w h stored rnd) = \<lparr>bird.x = real w * (2 / 10), y = real h / 2, velocity = 0, rotation = 0\<rparr>"
  by (simp add: init_def resetGame_def resizeCanvas_def)

lemma init_score [simp]: "score (init w h stored rnd) = 0"
  by (simp add: init_def resetGame_def resizeCanvas_def)

lemma resizeCanvas_bird [simp]: "bird (resizeCanvas w h s) = bird s"
  by (simp add: resizeCanvas_def)

subsection \<open>What each operation changes\<close>

lemma scorePoint_frame [simp]:
  "bird (scorePoint s) = bird s"
  "gameState (scorePoint s) = gameState s"
  "canvas_width (scorePoint s) = canvas_width s"
  "canvas_height (scorePoint s) = canvas_height s"
  "groundY (scorePoint s) = groundY s"
  "pipes (scorePoint s) = pipes s"
  by (simp_all add: scorePoint_def Let_def spawnCelebration_def)

lemma scorePoint_score [simp]: "score (scorePoint s) = Suc (score s)"
  by (simp add: scorePoint_def Let_def spawnCelebration_def)

lemma scorePoint_highScore: "highScore (scorePoint s) = max (highScore s) (Suc (score s))"
  by (simp add: scorePoint_def Let_def spawnCelebration_def)

lemma scorePoint_flag:
  "isNewHighScore (scorePoint s) = (isNewHighScore s \<or> highScore s < Suc (score s))"
  by (simp add: scorePoint_def Let_def spawnCelebration_def)

lemma scorePoint_storage:
  "localStorage (scorePoint s) =
     localStorage s @ (if highScore s < Suc (score s) then [Suc (score s)] else [])"
  by (simp add: scorePoint_def Let_def spawnCelebration_def)

lemma funpow_scorePoint_bird [simp]: "bird ((scorePoint ^^ k) s) = bird s"
  by (induction k) simp_all

lemma funpow_scorePoint_frame [simp]:
  "gameState ((scorePoint ^^ k) s) = gameState s"
  "canvas_width ((scorePoint ^^ k) s) = canvas_width s"
  "canvas_height ((scorePoint ^^ k) s) = canvas_height s"
  "groundY ((scorePoint ^^ k) s) = groundY s"
  by (induction k) simp_all

lemma funpow_scorePoint_score [simp]: "score ((scorePoint ^^ k) s) = score s + k"
  by (induction k) simp_all

lemma funpow_scorePoint_highScore:
  "score s \<le> highScore s \<Longrightarrow> highScore ((scorePoint ^^ k) s) = max (highScore s) (score s + k)"
  by (induction k) (simp_all add: scorePoint_highScore)

lemma funpow_scorePoint_highScore_mono: "highScore s \<le> highScore ((scorePoint ^^ k) s)"
  by (induction k) (simp_all add: scorePoint_highScore max.coboundedI1)

lemma updatePipes_state:
  "snd (updatePipes dt ps s) =
     (scorePoint ^^ length (filter (crossing dt (bird.x (bird s))) ps)) s"
  by (induction ps) (simp_all add: Let_def split_beta crossing_def)

lemma updatePipes_pipes:
  "fst (updatePipes dt ps s) =
     filter (\<lambda>p. \<not> pipe.x p + PIPE_WIDTH < 0) (map (movePipe dt (bird.x (bird s))) ps)"
  by (induction ps) (simp_all add: Let_def split_beta movePipe_def updatePipes_state)

lemma update_stages:
  "update s deltaTime =
     (if gameState s \<noteq> Playing then s
      else checkCollisions (scrollPipes (timeScale deltaTime) (beforeLoop s deltaTime)))"
  by (simp add: update_def beforeLoop_def timeScale_def Let_def)

lemma spawnPipe_frame [simp]:
  "bird (spawnPipe s) = bird s"
  "gameState (spawnPipe s) = gameState s"
  "canvas_width (spawnPipe s) = canvas_width s"
  "canvas_height (spawnPipe s) = canvas_height s"
  "groundY (spawnPipe s) = groundY s"
  "score (spawnPipe s) = score s"
  "highScore (spawnPipe s) = highScore s"
  "isNewHighScore (spawnPipe s) = isNewHighScore s"
  "localStorage (spawnPipe s) = localStorage s"
  by (simp_all add: spawnPipe_def Math_random_def Let_def)

lemma spawnFirstPipe_frame [simp]:
  "bird (spawnFirstPipe s) = bird s"
  "gameState (spawnFirstPipe s) = gameState s"
  "canvas_width (spawnFirstPipe s) = canvas_width s"
  "canvas_height (spawnFirstPipe s) = canvas_height s"
  "groundY (spawnFirstPipe s) = groundY s"
  "score (spawnFirstPipe s) = score s"
  "highScore (spawnFirstPipe s) = highScore s"
  "isNewHighScore (spawnFirstPipe s) = isNewHighScore s"
  "localStorage (spawnFirstPipe s) = localStorage s"
  by (simp_all add: spawnFirstPipe_def Math_random_def Let_def)

text \<open>
  The bird keeps its \<open>x\<close> during a frame.
\<close>

lemma updateBird_x [simp]: "bird.x (updateBird dt b) = bird.x b"
  by (simp add: updateBird_def Let_def)

lemma beforeLoop_frame [simp]:
  "bird (beforeLoop s d) = updateBird (timeScale d) (bird s)"
  "gameState (beforeLoop s d) = gameState s"
  "canvas_width (beforeLoop s d) = canvas_width s"
  "canvas_height (beforeLoop s d) = canvas_height s"
  "groundY (beforeLoop s d) = groundY s"
  "score (beforeLoop s d) = score s"
  "highScore (beforeLoop s d) = highScore s"
  "isNewHighScore (beforeLoop s d) = isNewHighScore s"
  "localStorage (beforeLoop s d) = localStorage s"
  by (simp_all add: beforeLoop_def Let_def)

lemma beforeLoop_pipes:
  "\<exists>new. pipes (beforeLoop s d) = pipes s @ new \<and> (\<forall>p\<in>set new. \<not> passed p)"
  by (simp add: beforeLoop_def spawnPipe_def spawnFirstPipe_def Math_random_def Let_def)

lemma checkPipes_cases: "checkPipes s ps = s \<or> checkPipes s ps = gameOver s"
  by (induction ps) (simp_all add: Let_def)

lemma checkCollisions_cases: "checkCollisions s = s \<or> checkCollisions s = gameOver s"
  using checkPipes_cases [of s "pipes s"] by (simp add: checkCollisions_def)

lemma checkCollisions_frame [simp]:
  "bird (checkCollisions s) = bird s"
  "pipes (checkCollisions s) = pipes s"
  "canvas_width (checkCollisions s) = canvas_width s"
  "canvas_height (checkCollisions s) = canvas_height s"
  "groundY (checkCollisions s) = groundY s"
  "score (checkCollisions s) = score s"
  "highScore (checkCollisions s) = highScore s"
  "isNewHighScore (checkCollisions s) = isNewHighScore s"
  "localStorage (checkCollisions s) = localStorage s"
  using checkCollisions_cases [of s] by (auto simp: gameOver_def)

lemma scrollPipes_state:
  "scrollPipes dt s =
     ((scorePoint ^^ length (filter (crossing dt (bird.x (bird s))) (pipes s))) s)
       \<lparr>pipes := filter (\<lambda>p. \<not> pipe.x p + PIPE_WIDTH < 0)
                  (map (movePipe dt (bird.x (bird s))) (pipes s))\<rparr>"
  using updatePipes_state [of dt "pipes s" s] updatePipes_pipes [of dt "pipes s" s]
  by (simp add: scrollPipes_def split_beta)

lemma scrollPipes_frame [simp]:
  "bird (scrollPipes dt s) = bird s"
  "gameState (scrollPipes dt s) = gameState s"
  "canvas_width (scrollPipes dt s) = canvas_width s"
  "canvas_height (scrollPipes dt s) = canvas_height s"
  "groundY (scrollPipes dt s) = groundY s"
  by (simp_all add: scrollPipes_state)

lemma update_bird:
  "bird (update s d) = (if gameState s = Playing then updateBird (timeScale d) (bird s) else bird s)"
  by (simp add: update_stages)

lemma update_score:
  "gameState s = Playing \<Longrightarrow>
   score (update s d) =
     score s + length (filter (crossing (timeScale d) (bird.x (bird s))) (pipes (beforeLoop s d)))"
  by (simp add: update_stages scrollPipes_state)

lemma update_pipes:
  "gameState s = Playing \<Longrightarrow>
   pipes (update s d) =
     filter (\<lambda>p. \<not> pipe.x p + PIPE_WIDTH < 0)
       (map (movePipe (timeScale d) (bird.x (bird s))) (pipes (beforeLoop s d)))"
  by (simp add: update_stages scrollPipes_state)

lemma movePipe_flag: "passed (movePipe dt bx p) \<or> bx \<le> pipe.x (movePipe dt bx p) + PIPE_WIDTH"
  by (auto simp: movePipe_def)

subsection \<open>Evaluating concrete runs\<close>

lemmas exec =
  run_def update_stages beforeLoop_def timeScale_def
  spawnPipe_def spawnFirstPipe_def Math_random_def spawnCelebration_def updateBird_def
  scorePoint_def scrollPipes_def checkCollisions_def gameOver_def
  birdLeft_def birdRight_def birdTop_def birdBottom_def Let_def constants

lemma playing0_eq:
  "playing0 = \<lparr>canvas_width = 400, canvas_height = 600,
        bird = \<lparr>bird.x = 80, y = 300, velocity = - (15 / 2), rotation = 0\<rparr>,
        pipes = [],
        score = 0,
        highScore = 0,
        gameState = Playing,
        groundY = 520,
        isNewHighScore = False,
        localStorage = [],
        randoms = half\<rparr>"
  by (simp add: playing0_def run_def init_def resizeCanvas_def resetGame_def
      handleInput_def constants)

lemma crashed0_eq:
  "crashed0 = \<lparr>canvas_width = 400, canvas_height = 600,
        bird = \<lparr>bird.x = 80, y = 552, velocity = 10, rotation = 40\<rparr>,
        pipes = [\<lparr>pipe.x = 532 / 5, topHeight = 395 / 2, passed = False\<rparr>,
                 \<lparr>pipe.x = 1616 / 5, topHeight = 395 / 2, passed = False\<rparr>],
        score = 0,
        highScore = 0,
        gameState = Gameover,
        groundY = 520,
        isNewHighScore = False,
        localStorage = [],
        randoms = (\<lambda>n. 1 / 2)\<rparr>"
  by (simp add: crashed0_def playing0_eq exec half_def numeral_eq_Suc)

lemma landscape0_eq:
  "landscape0 = \<lparr>canvas_width = 568, canvas_height = 320,
        bird = \<lparr>bird.x = 568 / 5, y = 160, velocity = - (15 / 2), rotation = 0\<rparr>,
        pipes = [],
        score = 0,
        highScore = 0,
        gameState = Playing,
        groundY = 240,
        isNewHighScore = False,
        localStorage = [],
        randoms = half\<rparr>"
  by (simp add: landscape0_def run_def init_def resizeCanvas_def resetGame_def
      handleInput_def constants)

lemma nearGround_eq:
  "nearGround = \<lparr>canvas_width = 400, canvas_height = 600,
        bird = \<lparr>bird.x = 80, y = 492, velocity = 10, rotation = 40\<rparr>,
        pipes = [\<lparr>pipe.x = 628 / 5, topHeight = 395 / 2, passed = False\<rparr>,
                 \<lparr>pipe.x = 1712 / 5, topHeight = 395 / 2, passed = False\<rparr>],
        score = 0,
        highScore = 0,
        gameState = Playing,
        groundY = 520,
        isNewHighScore = False,
        localStorage = [],
        randoms = (\<lambda>n. 1 / 2)\<rparr>"
  by (simp add: nearGround_def playing0_eq exec half_def numeral_eq_Suc)

lemma scoring0_eq:
  "scoring0 = \<lparr>canvas_width = 400, canvas_height = 600,
        bird = \<lparr>bird.x = 80, y = 1347 / 5, velocity = 12 / 5, rotation = 48 / 5\<rparr>,
        pipes = [\<lparr>pipe.x = 52 / 5, topHeight = 395 / 2, passed = False\<rparr>,
                 \<lparr>pipe.x = 1136 / 5, topHeight = 395 / 2, passed = False\<rparr>],
        score = 0,
        highScore = 0,
        gameState = Playing,
        groundY = 520,
        isNewHighScore = False,
        localStorage = [],
        randoms = (\<lambda>n. 1 / 2)\<rparr>"
  by (simp add: scoring0_def playing0_eq exec handleInput_def half_def)

lemma wide0_eq:
  "wide0 = \<lparr>canvas_width = 600, canvas_height = 1440,
        bird = \<lparr>bird.x = 688, y = 720, velocity = - (15 / 2), rotation = 0\<rparr>,
        pipes = [],
        score = 0,
        highScore = 0,
        gameState = Playing,
        groundY = 1360,
        isNewHighScore = False,
        localStorage = [],
        randoms = half\<rparr>"
  by (simp add: wide0_def run_def init_def resizeCanvas_def resetGame_def
      handleInput_def constants)

subsection \<open>The high score\<close>

lemma update_highScore_mono: "highScore s \<le> highScore (update s d)"
  by (simp add: update_stages scrollPipes_state)
     (metis beforeLoop_frame(7) funpow_scorePoint_highScore_mono)

lemma handleInput_highScore [simp]: "highScore (handleInput s) = highScore s"
  by (simp add: handleInput_def resetGame_def split: phase.splits)

lemma step_highScore_mono: "highScore s \<le> highScore (step s e)"
  by (cases e) (simp_all add: update_highScore_mono resizeCanvas_def)

text \<open>
  C6: over any sequence of frames, inputs and resizes, from any state, the high score at
  the end is at least the high score at the start.
\<close>

theorem high_score_never_decreases: "highScore s \<le> highScore (run s evs)"
proof (induction evs rule: rev_induct)
  case Nil
  show ?case by (simp add: run_def)
next
  case (snoc e evs)
  have "highScore (run s evs) \<le> highScore (step (run s evs) e)"
    by (rule step_highScore_mono)
  with snoc show ?case by (simp add: run_snoc)
qed

theorem high_score_never_decreases_witness:
  "highScore scoring0 = 0 \<and>
   highScore (run scoring0 [Update 100, Resize 300 500, Input, Update 100]) = 1 \<and>
   highScore scoring0 \<le> highScore (run scoring0 [Update 100, Resize 300 500, Input, Update 100])"
proof -
  have "highScore (update scoring0 100) = 1"
    by (simp add: scoring0_eq exec)
  then have "1 \<le> highScore (update scoring0 100)"
    by simp
  also have "\<dots> \<le> highScore (run (update scoring0 100) [Resize 300 500, Input, Update 100])"
    by (rule high_score_never_decreases)
  finally have "1 \<le> highScore (run scoring0 [Update 100, Resize 300 500, Input, Update 100])"
    by simp
  moreover have "highScore (run scoring0 [Update 100, Resize 300 500, Input, Update 100]) \<le> 1"
    by (simp add: scoring0_eq exec handleInput_def resizeCanvas_def)
  ultimately show ?thesis
    using high_score_never_decreases
      [of scoring0 "[Update 100, Resize 300 500, Input, Update 100]"]
    by (simp add: scoring0_eq)
qed

subsection \<open>The bird's velocity\<close>

lemma updateBird_velocity_le: "velocity (updateBird dt b) \<le> MAX_FALL_SPEED"
  by (simp add: updateBird_def Let_def)

lemma updateBird_velocity_ge:
  "0 \<le> dt \<Longrightarrow> min (velocity b) MAX_FALL_SPEED \<le> velocity (updateBird dt b)"
  by (simp add: updateBird_def Let_def constants)

lemma timeScale_nonneg: "0 \<le> d \<Longrightarrow> 0 \<le> timeScale d"
  by (simp add: timeScale_def constants)

lemma handleInput_velocity:
  "velocity (bird (handleInput s)) =
     (case gameState s of Splash \<Rightarrow> velocity (bird s) | Gameover \<Rightarrow> 0 | _ \<Rightarrow> FLAP_STRENGTH)"
  by (simp add: handleInput_def resetGame_def split: phase.splits)

lemma step_velocity_le:
  assumes "velocity (bird s) \<le> MAX_FALL_SPEED"
  shows "velocity (bird (step s e)) \<le> MAX_FALL_SPEED"
proof (cases e)
  case (Update d)
  with assms show ?thesis
    by (simp add: update_bird updateBird_velocity_le)
next
  case Input
  with assms show ?thesis
    by (simp add: handleInput_velocity constants split: phase.splits)
next
  case (Resize w h)
  with assms show ?thesis by simp
qed

lemma run_velocity_le:
  "velocity (bird s) \<le> MAX_FALL_SPEED \<Longrightarrow> velocity (bird (run s evs)) \<le> MAX_FALL_SPEED"
  by (induction evs arbitrary: s) (simp_all add: step_velocity_le)

lemmas number_ops =
  Math_min_def js_divide_def js_times_def js_plus_def js_greater_def js_less_eq_def

text \<open>
  On real arguments \<open>updateVelocity\<close> is the velocity that \<open>update\<close> leaves.
\<close>

lemma updateVelocity_Num:
  "updateVelocity (gameState s) (Num (velocity (bird s))) (Num d) =
     Num (velocity (bird (update s d)))"
  by (simp add: updateVelocity_def number_ops update_bird updateBird_def timeScale_def Let_def)

lemma updateVelocity_NaN:
  "updateVelocity Playing v NaN = NaN"
  by (simp add: updateVelocity_def number_ops Let_def split: number.splits)

text \<open>
  C4 as stated fails at NaN: in the started round, \<open>update(NaN)\<close> leaves the velocity NaN
  (\<open>Math.min(NaN, 100)\<close> is NaN, so is \<open>-7.5 + 0.55 * NaN\<close>, and \<open>NaN > 10\<close> is false, so
  the clamp does not fire), and \<open>NaN <= 10\<close> is false.
\<close>

theorem nan_velocity_counterexample:
  "gameState playing0 = Playing \<and>
   velocity (bird playing0) = - (15 / 2) \<and>
   updateVelocity (gameState playing0) (Num (velocity (bird playing0))) NaN = NaN \<and>
   \<not> js_less_eq (updateVelocity (gameState playing0) (Num (velocity (bird playing0))) NaN)
       (Num MAX_FALL_SPEED)"
  by (simp add: playing0_eq updateVelocity_def number_ops)

text \<open>
  C4, amended: in every state that the program can reach by inputs, resizes and frames
  whose elapsed times are numbers, and for every elapsed time given to \<open>update\<close> that is a
  number (not NaN), whatever its value, the bird's velocity after the call is at most
  \<open>MAX_FALL_SPEED\<close>.
\<close>

theorem velocity_never_exceeds_max:
  "velocity (bird (update (run (init w h stored rnd) evs) deltaTime)) \<le> MAX_FALL_SPEED \<and>
   updateVelocity (gameState (run (init w h stored rnd) evs))
       (Num (velocity (bird (run (init w h stored rnd) evs)))) (Num deltaTime) =
     Num (velocity (bird (update (run (init w h stored rnd) evs) deltaTime))) \<and>
   js_less_eq
     (updateVelocity (gameState (run (init w h stored rnd) evs))
        (Num (velocity (bird (run (init w h stored rnd) evs)))) (Num deltaTime))
     (Num MAX_FALL_SPEED)"
proof -
  have "velocity (bird (run (init w h stored rnd) evs)) \<le> MAX_FALL_SPEED"
    by (rule run_velocity_le) (simp add: constants)
  then have "velocity (bird (step (run (init w h stored rnd) evs) (Update deltaTime)))
      \<le> MAX_FALL_SPEED"
    by (rule step_velocity_le)
  then have le: "velocity (bird (update (run (init w h stored rnd) evs) deltaTime))
      \<le> MAX_FALL_SPEED"
    by simp
  then show ?thesis
    by (simp add: updateVelocity_Num js_less_eq_def)
qed

theorem velocity_never_exceeds_max_witness:
  "gameState nearGround = Playing \<and>
   velocity (bird nearGround) = 10 \<and>
   velocity (bird (update nearGround 100)) = 10 \<and>
   velocity (bird (update nearGround 100)) \<le> MAX_FALL_SPEED \<and>
   updateVelocity (gameState nearGround) (Num (velocity (bird nearGround))) (Num 100) = Num 10 \<and>
   js_less_eq (updateVelocity (gameState nearGround) (Num (velocity (bird nearGround))) (Num 100))
     (Num MAX_FALL_SPEED)"
proof -
  have n: "run (init 400 600 None half) ([Input, Input] @ replicate 7 (Update 100)) = nearGround"
    unfolding run_append by (simp only: nearGround_def playing0_def)
  have v: "gameState nearGround = Playing" "velocity (bird nearGround) = 10"
    by (simp_all add: nearGround_eq)
  have u: "velocity (bird (update nearGround 100)) = 10"
    by (simp add: update_bird v timeScale_def updateBird_def constants)
  note inst = velocity_never_exceeds_max
    [of 400 600 None half "[Input, Input] @ replicate 7 (Update 100)" 100, unfolded n]
  from inst have e: "updateVelocity (gameState nearGround) (Num (velocity (bird nearGround)))
      (Num 100) = Num (velocity (bird (update nearGround 100)))"
    by blast
  from inst have l: "js_less_eq
      (updateVelocity (gameState nearGround) (Num (velocity (bird nearGround))) (Num 100))
      (Num MAX_FALL_SPEED)"
    by blast
  from inst have m: "velocity (bird (update nearGround 100)) \<le> MAX_FALL_SPEED"
    by blast
  from e have e': "updateVelocity (gameState nearGround) (Num (velocity (bird nearGround)))
      (Num 100) = Num 10"
    by (simp only: u)
  from v u m e' l show ?thesis
    by (intro conjI)
qed

lemma step_velocity_range:
  assumes "FLAP_STRENGTH \<le> velocity (bird s)" "velocity (bird s) \<le> MAX_FALL_SPEED"
    and "\<And>d. e = Update d \<Longrightarrow> 0 \<le> d"
  shows "FLAP_STRENGTH \<le> velocity (bird (step s e))"
proof (cases e)
  case (Update d)
  with assms(3) have "0 \<le> timeScale d"
    by (simp add: timeScale_nonneg)
  from updateBird_velocity_ge [OF this, of "bird s"] assms(1,2) Update show ?thesis
    by (simp add: update_bird)
next
  case Input
  with assms(1) show ?thesis
    by (simp add: handleInput_velocity constants split: phase.splits)
next
  case (Resize w h)
  with assms(1) show ?thesis by simp
qed

lemma run_velocity_range:
  "FLAP_STRENGTH \<le> velocity (bird s) \<Longrightarrow> velocity (bird s) \<le> MAX_FALL_SPEED \<Longrightarrow>
   \<forall>d. Update d \<in> set evs \<longrightarrow> 0 \<le> d \<Longrightarrow> FLAP_STRENGTH \<le> velocity (bird (run s evs))"
proof (induction evs arbitrary: s)
  case Nil
  then show ?case by simp
next
  case (Cons e evs)
  have "FLAP_STRENGTH \<le> velocity (bird (step s e))"
    using Cons.prems by (intro step_velocity_range) auto
  moreover have "velocity (bird (step s e)) \<le> MAX_FALL_SPEED"
    using Cons.prems(2) by (rule step_velocity_le)
  ultimately show ?case
    using Cons.IH [of "step s e"] Cons.prems(3) by simp
qed

lemma update_velocity_mono:
  assumes "velocity (bird s) \<le> MAX_FALL_SPEED" "0 \<le> d"
  shows "velocity (bird s) \<le> velocity (bird (update s d))"
  using updateBird_velocity_ge [OF timeScale_nonneg [OF assms(2)], of "bird s"] assms(1)
  by (simp add: update_bird)

text \<open>
  C10: when no frame has a negative elapsed time, the bird's velocity stays between
  \<open>FLAP_STRENGTH\<close> and \<open>MAX_FALL_SPEED\<close> in every reachable state, in every phase: it is 0
  after \<open>init\<close>, an input in the phases 'start' and 'playing' sets it to \<open>FLAP_STRENGTH\<close>,
  and a frame with a non-negative elapsed time never lowers it.
\<close>

theorem velocity_stays_in_range:
  assumes "\<forall>d. Update d \<in> set evs \<longrightarrow> 0 \<le> d"
  shows "FLAP_STRENGTH \<le> velocity (bird (run (init w h stored rnd) evs)) \<and>
         velocity (bird (run (init w h stored rnd) evs)) \<le> MAX_FALL_SPEED \<and>
         velocity (bird (init w h stored rnd)) = 0 \<and>
         (gameState (run (init w h stored rnd) evs) = Start \<or>
          gameState (run (init w h stored rnd) evs) = Playing \<longrightarrow>
            velocity (bird (handleInput (run (init w h stored rnd) evs))) = FLAP_STRENGTH) \<and>
         (\<forall>d\<ge>0. velocity (bird (run (init w h stored rnd) evs))
                 \<le> velocity (bird (update (run (init w h stored rnd) evs) d)))"
proof -
  have lo: "FLAP_STRENGTH \<le> velocity (bird (run (init w h stored rnd) evs))"
    using assms by (intro run_velocity_range) (simp_all add: constants)
  have hi: "velocity (bird (run (init w h stored rnd) evs)) \<le> MAX_FALL_SPEED"
    by (rule run_velocity_le) (simp add: constants)
  have flap: "gameState (run (init w h stored rnd) evs) = Start \<or>
      gameState (run (init w h stored rnd) evs) = Playing \<longrightarrow>
      velocity (bird (handleInput (run (init w h stored rnd) evs))) = FLAP_STRENGTH"
    by (auto simp: handleInput_velocity)
  have zero: "velocity (bird (init w h stored rnd)) = 0"
    by simp
  have mono: "\<forall>d\<ge>0. velocity (bird (run (init w h stored rnd) evs))
      \<le> velocity (bird (update (run (init w h stored rnd) evs) d))"
    using update_velocity_mono [OF hi] by blast
  from lo hi zero flap mono show ?thesis
    by (intro conjI)
qed

theorem velocity_stays_in_range_witness:
  "(0::real) \<le> 50 / 3 \<and>
   FLAP_STRENGTH \<le> velocity (bird (run (init 400 600 None half) [Input, Input, Update (50 / 3)])) \<and>
   velocity (bird (run (init 400 600 None half) [Input, Input, Update (50 / 3)])) \<le> MAX_FALL_SPEED \<and>
   velocity (bird (run (init 400 600 None half) [Input, Input, Update (50 / 3)])) = - (139 / 20) \<and>
   velocity (bird (run (init 400 600 None half) [Input, Input, Update (50 / 3)]))
     \<le> velocity (bird (update (run (init 400 600 None half) [Input, Input, Update (50 / 3)]) 100))"
proof -
  have h: "\<forall>d. Update d \<in> set [Input, Input, Update (50 / 3)] \<longrightarrow> 0 \<le> d"
    by simp
  have v: "velocity (bird (run (init 400 600 None half) [Input, Input, Update (50 / 3)]))
      = - (139 / 20)"
    by (simp add: update_bird timeScale_def updateBird_def handleInput_def init_def resetGame_def
        resizeCanvas_def constants)
  show ?thesis
    using v velocity_stays_in_range [OF h, of 400 600 None half] by simp
qed

subsection \<open>Restart\<close>

text \<open>
  C8: an input in the phase 'gameover' puts the bird, the obstacle list, the score and the
  new-high-score flag back to the values they have after \<open>init\<close>, leaves the high score
  (and everything else) as it is, and moves to the phase 'start', not 'playing': a frame
  in that phase changes nothing, and one more input starts play.
\<close>

theorem restart_resets_round:
  assumes "gameState s = Gameover"
  shows "handleInput s =
           s\<lparr>bird := \<lparr>bird.x = real (canvas_width s) * (2 / 10),
                       y = real (canvas_height s) / 2, velocity = 0, rotation = 0\<rparr>,
             pipes := [], score := 0, isNewHighScore := False, gameState := Start\<rparr> \<and>
         bird (handleInput s) = bird (init (canvas_width s) (canvas_height s) stored rnd) \<and>
         pipes (handleInput s) = pipes (init (canvas_width s) (canvas_height s) stored rnd) \<and>
         score (handleInput s) = score (init (canvas_width s) (canvas_height s) stored rnd) \<and>
         isNewHighScore (handleInput s) =
           isNewHighScore (init (canvas_width s) (canvas_height s) stored rnd) \<and>
         highScore (handleInput s) = highScore s \<and>
         gameState (handleInput s) = Start \<and>
         update (handleInput s) deltaTime = handleInput s \<and>
         gameState (handleInput (handleInput s)) = Playing"
  using assms
  by (simp add: handleInput_def resetGame_def init_def resizeCanvas_def update_def)

theorem restart_resets_round_witness:
  "gameState crashed0 = Gameover \<and>
   bird (handleInput crashed0) = \<lparr>bird.x = 80, y = 300, velocity = 0, rotation = 0\<rparr> \<and>
   pipes (handleInput crashed0) = [] \<and>
   score (handleInput crashed0) = 0 \<and>
   isNewHighScore (handleInput crashed0) = False \<and>
   highScore (handleInput crashed0) = highScore crashed0 \<and>
   gameState (handleInput crashed0) = Start"
proof -
  have g: "gameState crashed0 = Gameover"
    by (simp add: crashed0_eq)
  show ?thesis
    using g restart_resets_round [OF g, of None half 0] by (simp add: crashed0_eq)
qed

subsection \<open>Spawned obstacles\<close>

text \<open>
  The bounds of \<open>r * (maxHeight - minHeight) + minHeight\<close> for \<open>r\<close> in [0, 1), when
  \<open>minHeight \<le> maxHeight\<close>; \<open>g\<close> is the ground line.
\<close>

lemma spawn_top_bounds:
  fixes r g :: real
  assumes "0 \<le> r" "r < 1" "80 \<le> g - PIPE_GAP - 80"
  shows "80 \<le> r * (g - PIPE_GAP - 80 - 80) + 80"
    and "r * (g - PIPE_GAP - 80 - 80) + 80 \<le> g - PIPE_GAP - 80"
proof -
  have d: "0 \<le> g - PIPE_GAP - 80 - 80"
    using assms(3) by simp
  with assms(1) have "0 \<le> r * (g - PIPE_GAP - 80 - 80)"
    by (rule mult_nonneg_nonneg)
  then show "80 \<le> r * (g - PIPE_GAP - 80 - 80) + 80" by simp
  have "r * (g - PIPE_GAP - 80 - 80) \<le> 1 * (g - PIPE_GAP - 80 - 80)"
    using assms(2) d by (intro mult_right_mono) simp_all
  then show "r * (g - PIPE_GAP - 80 - 80) + 80 \<le> g - PIPE_GAP - 80" by simp
qed

text \<open>
  C9 as stated fails on a low canvas: at 568 by 320 the first pipe of the round gets the
  \<open>topHeight\<close> 57.5, below the margin 80 (the upper bound 35 is below the lower one).
\<close>

theorem gap_top_counterexample:
  "0 \<le> randoms landscape0 0 \<and> randoms landscape0 0 < 1 \<and>
   canvas_height landscape0 = 320 \<and>
   gameState landscape0 = Playing \<and>
   pipes (update landscape0 (50 / 3)) =
     [\<lparr>pipe.x = 366, topHeight = 115 / 2, passed = False\<rparr>] \<and>
   \<not> (80 \<le> topHeight (hd (pipes (update landscape0 (50 / 3)))) \<and>
      topHeight (hd (pipes (update landscape0 (50 / 3))))
        \<le> real (canvas_height landscape0) - 80 - PIPE_GAP - 80)"
  by (simp add: landscape0_eq exec half_def)

text \<open>
  The ground line is 80 above the bottom of the canvas in every reachable state, and the
  random numbers that a reachable state will draw are a tail of the injected source.
\<close>

lemma run_groundY:
  "groundY (run (init w h stored rnd) evs) =
     real (canvas_height (run (init w h stored rnd) evs)) - 80"
proof (induction evs rule: rev_induct)
  case Nil
  show ?case by (simp add: init_def resetGame_def resizeCanvas_def)
next
  case (snoc e evs)
  show ?case
  proof (cases e)
    case (Update d)
    with snoc show ?thesis
      by (simp add: run_snoc update_stages)
  next
    case Input
    with snoc show ?thesis
      by (simp add: run_snoc handleInput_def resetGame_def split: phase.splits)
  next
    case (Resize w' h')
    then show ?thesis
      by (simp add: run_snoc resizeCanvas_def)
  qed
qed

lemma funpow_scorePoint_randoms:
  "\<exists>k. randoms ((scorePoint ^^ n) s) = (\<lambda>i. randoms s (i + k))"
proof (induction n)
  case 0
  show ?case by (intro exI [of _ 0]) simp
next
  case (Suc n)
  then obtain k where k: "randoms ((scorePoint ^^ n) s) = (\<lambda>i. randoms s (i + k))"
    by blast
  define t where "t = (scorePoint ^^ n) s"
  have "randoms (scorePoint t) = randoms t \<or>
      randoms (scorePoint t) = (\<lambda>i. randoms t (i + 350))"
    by (simp add: scorePoint_def spawnCelebration_def Let_def)
  then show ?case
  proof
    assume "randoms (scorePoint t) = randoms t"
    then have "randoms ((scorePoint ^^ Suc n) s) = (\<lambda>i. randoms s (i + k))"
      by (simp add: t_def k)
    then show ?thesis by blast
  next
    assume "randoms (scorePoint t) = (\<lambda>i. randoms t (i + 350))"
    then have "randoms ((scorePoint ^^ Suc n) s) = (\<lambda>i. randoms s (i + (350 + k)))"
      by (simp add: t_def k add.assoc)
    then show ?thesis by blast
  qed
qed

lemma beforeLoop_randoms:
  "\<exists>k. randoms (beforeLoop s d) = (\<lambda>i. randoms s (i + k))"
proof -
  have a: "randoms (spawnPipe t) = (\<lambda>i. randoms t (i + 1))"
    "randoms (spawnFirstPipe t) = (\<lambda>i. randoms t (i + 1))" for t
    by (simp_all add: spawnPipe_def spawnFirstPipe_def Math_random_def)
  have "randoms (beforeLoop s d) = (\<lambda>i. randoms s (i + 0)) \<or>
      randoms (beforeLoop s d) = (\<lambda>i. randoms s (i + 1)) \<or>
      randoms (beforeLoop s d) = (\<lambda>i. randoms s (i + 2))"
    by (simp add: beforeLoop_def Let_def a add.assoc)
  then show ?thesis by blast
qed

lemma update_randoms:
  "\<exists>k. randoms (update s d) = (\<lambda>i. randoms s (i + k))"
proof (cases "gameState s = Playing")
  case False
  then have "randoms (update s d) = (\<lambda>i. randoms s (i + 0))"
    by (simp add: update_stages)
  then show ?thesis by blast
next
  case True
  obtain k where k: "randoms (beforeLoop s d) = (\<lambda>i. randoms s (i + k))"
    using beforeLoop_randoms by blast
  have c: "randoms (checkCollisions t) = randoms t" for t
    using checkCollisions_cases [of t] by (auto simp: gameOver_def)
  obtain n where "randoms (scrollPipes (timeScale d) (beforeLoop s d)) =
      (\<lambda>i. randoms (beforeLoop s d) (i + n))"
    using funpow_scorePoint_randoms by (auto simp: scrollPipes_state)
  with True have "randoms (update s d) = (\<lambda>i. randoms s (i + (n + k)))"
    by (simp add: update_stages c k add.assoc)
  then show ?thesis by blast
qed

lemma step_randoms:
  "\<exists>k. randoms (step s e) = (\<lambda>i. randoms s (i + k))"
proof (cases e)
  case (Update d)
  then show ?thesis using update_randoms by simp
next
  case Input
  then have "randoms (step s e) = (\<lambda>i. randoms s (i + 0))"
    by (simp add: handleInput_def resetGame_def split: phase.splits)
  then show ?thesis by blast
next
  case (Resize w h)
  then have "randoms (step s e) = (\<lambda>i. randoms s (i + 0))"
    by (simp add: resizeCanvas_def)
  then show ?thesis by blast
qed

lemma run_randoms:
  "\<exists>k. randoms (run s evs) = (\<lambda>i. randoms s (i + k))"
proof (induction evs rule: rev_induct)
  case Nil
  have "randoms (run s []) = (\<lambda>i. randoms s (i + 0))" by simp
  then show ?case by blast
next
  case (snoc e evs)
  then obtain k where k: "randoms (run s evs) = (\<lambda>i. randoms s (i + k))"
    by blast
  obtain j where "randoms (step (run s evs) e) = (\<lambda>i. randoms (run s evs) (i + j))"
    using step_randoms by blast
  then have "randoms (run s (evs @ [e])) = (\<lambda>i. randoms s (i + (j + k)))"
    by (simp add: run_snoc k add.assoc)
  then show ?case by blast
qed

lemma init_randoms [simp]: "randoms (init w h stored rnd) = rnd"
  by (simp add: init_def resetGame_def resizeCanvas_def)

lemma spawnPipe_top:
  assumes "0 \<le> randoms s 0" and "randoms s 0 < 1" and "80 \<le> groundY s - PIPE_GAP - 80"
  shows "\<exists>p. pipes (spawnPipe s) = pipes s @ [p] \<and> \<not> passed p \<and>
             80 \<le> topHeight p \<and> topHeight p \<le> groundY s - PIPE_GAP - 80"
    and "\<exists>p. pipes (spawnFirstPipe s) = pipes s @ [p] \<and> \<not> passed p \<and>
             80 \<le> topHeight p \<and> topHeight p \<le> groundY s - PIPE_GAP - 80"
  using spawn_top_bounds [OF assms]
  by (simp_all add: spawnPipe_def spawnFirstPipe_def Math_random_def)

lemma beforeLoop_new_pipes:
  assumes r: "\<forall>i. 0 \<le> randoms s i \<and> randoms s i < 1"
    and g: "80 \<le> groundY s - PIPE_GAP - 80"
  shows "\<exists>new. pipes (beforeLoop s d) = pipes s @ new \<and>
           (\<forall>p\<in>set new. 80 \<le> topHeight p \<and> topHeight p \<le> groundY s - PIPE_GAP - 80)"
proof -
  define s1 where "s1 = (if pipes s = [] then spawnFirstPipe s else s)"
  define s2 where "s2 = s1\<lparr>bird := updateBird (timeScale d) (bird s1)\<rparr>"
  have r1: "\<forall>i. 0 \<le> randoms s1 i \<and> randoms s1 i < 1"
    using r by (simp add: s1_def spawnFirstPipe_def Math_random_def)
  have g1: "groundY s1 = groundY s"
    by (simp add: s1_def)
  obtain n1 where n1: "pipes s1 = pipes s @ n1"
    "\<forall>p\<in>set n1. 80 \<le> topHeight p \<and> topHeight p \<le> groundY s - PIPE_GAP - 80"
  proof (cases "pipes s = []")
    case True
    from spawnPipe_top(2) [of s] r g obtain p where
      "pipes (spawnFirstPipe s) = pipes s @ [p]"
      "80 \<le> topHeight p" "topHeight p \<le> groundY s - PIPE_GAP - 80"
      by blast
    with True that [of "[p]"] show ?thesis by (simp add: s1_def)
  next
    case False
    with that [of "[]"] show ?thesis by (simp add: s1_def)
  qed
  have r2: "0 \<le> randoms s2 0" "randoms s2 0 < 1" "80 \<le> groundY s2 - PIPE_GAP - 80"
    using r1 g g1 by (simp_all add: s2_def)
  have p2: "pipes s2 = pipes s1" "groundY s2 = groundY s"
    by (simp_all add: s2_def g1)
  have b: "beforeLoop s d =
      (if pipes s2 = [] \<or> pipe.x (last (pipes s2)) < real (canvas_width s2) - PIPE_SPACING
       then spawnPipe s2 else s2)"
    by (simp add: beforeLoop_def s1_def s2_def Let_def)
  show ?thesis
  proof (cases "pipes s2 = [] \<or>
      pipe.x (last (pipes s2)) < real (canvas_width s2) - PIPE_SPACING")
    case True
    from spawnPipe_top(1) [OF r2] obtain p where
      "pipes (spawnPipe s2) = pipes s2 @ [p]"
      "80 \<le> topHeight p" "topHeight p \<le> groundY s2 - PIPE_GAP - 80"
      by blast
    moreover from True have "beforeLoop s d = spawnPipe s2"
      by (simp only: b if_True)
    ultimately have "pipes (beforeLoop s d) = pipes s @ (n1 @ [p]) \<and>
        (\<forall>q\<in>set (n1 @ [p]). 80 \<le> topHeight q \<and> topHeight q \<le> groundY s - PIPE_GAP - 80)"
      using n1 p2 by simp
    then show ?thesis by blast
  next
    case False
    then have "beforeLoop s d = s2"
      by (simp only: b if_False)
    with n1(1) p2(1) have "pipes (beforeLoop s d) = pipes s @ n1"
      by simp
    with n1(2) show ?thesis by blast
  qed
qed

text \<open>
  C9, amended: let the random source return numbers in [0, 1) only, and take a reachable
  state whose canvas is at least 365 high (so that the lower bound 80 is at most the upper
  bound \<open>canvas_height - 80 - PIPE_GAP - 80\<close>). Then the pipe that \<open>spawnPipe\<close> or
  \<open>spawnFirstPipe\<close> appends, and every pipe that a frame spawns (the first pipe of the round
  included), has its \<open>topHeight\<close> between 80 and \<open>canvas_height - 80 - PIPE_GAP - 80\<close>.
\<close>

theorem gap_top_within_margins:
  assumes "\<forall>i. 0 \<le> rnd i \<and> rnd i < 1"
    and "s = run (init w h stored rnd) evs"
    and "365 \<le> canvas_height s"
  shows "(\<exists>p. pipes (spawnPipe s) = pipes s @ [p] \<and>
              80 \<le> topHeight p \<and>
              topHeight p \<le> real (canvas_height s) - 80 - PIPE_GAP - 80) \<and>
         (\<exists>p. pipes (spawnFirstPipe s) = pipes s @ [p] \<and>
              80 \<le> topHeight p \<and>
              topHeight p \<le> real (canvas_height s) - 80 - PIPE_GAP - 80) \<and>
         (\<exists>new. pipes (beforeLoop s deltaTime) = pipes s @ new \<and>
              (\<forall>p\<in>set new. 80 \<le> topHeight p \<and>
                 topHeight p \<le> real (canvas_height s) - 80 - PIPE_GAP - 80))"
proof -
  obtain k where "randoms s = (\<lambda>i. rnd (i + k))"
    using run_randoms [of "init w h stored rnd" evs] by (auto simp: assms(2))
  with assms(1) have r: "\<forall>i. 0 \<le> randoms s i \<and> randoms s i < 1"
    by simp
  have gy: "groundY s = real (canvas_height s) - 80"
    unfolding assms(2) by (rule run_groundY)
  with assms(3) have g: "80 \<le> groundY s - PIPE_GAP - 80"
    by (simp add: constants)
  from r have r0: "0 \<le> randoms s 0" "randoms s 0 < 1"
    by simp_all
  from spawnPipe_top [OF r0 g] beforeLoop_new_pipes [OF r g, of deltaTime] show ?thesis
    unfolding gy by blast
qed

theorem gap_top_within_margins_witness:
  "0 \<le> half 0 \<and> half 0 < 1 \<and>
   365 \<le> canvas_height playing0 \<and>
   topHeight (last (pipes (spawnFirstPipe playing0))) = 395 / 2 \<and>
   80 \<le> topHeight (last (pipes (spawnFirstPipe playing0))) \<and>
   topHeight (last (pipes (spawnFirstPipe playing0))) \<le> 600 - 80 - PIPE_GAP - 80 \<and>
   80 \<le> topHeight (last (pipes (spawnPipe playing0))) \<and>
   topHeight (last (pipes (spawnPipe playing0))) \<le> 600 - 80 - PIPE_GAP - 80"
proof -
  have h: "\<forall>i. 0 \<le> half i \<and> half i < 1"
    "playing0 = run (init 400 600 None half) [Input, Input]"
    "365 \<le> canvas_height playing0"
    by (simp add: half_def, simp only: playing0_def, simp add: playing0_eq)
  have t: "topHeight (last (pipes (spawnFirstPipe playing0))) = 395 / 2"
    by (simp add: playing0_eq exec half_def)
  have c: "real (canvas_height playing0) = 600"
    by (simp add: playing0_eq)
  from gap_top_within_margins [OF h, of 0] t show ?thesis
    unfolding c by (auto simp: half_def playing0_eq)
qed

subsection \<open>Collisions\<close>

text \<open>
  The loop over the pipes ends the round exactly when some pipe is hit by the inset box.
\<close>

lemma checkPipes_gameState:
  "gameState (checkPipes s ps) = Gameover \<longleftrightarrow>
     gameState s = Gameover \<or>
     (\<exists>p\<in>set ps. birdRight s > pipe.x p \<and> birdLeft s < pipe.x p + PIPE_WIDTH \<and>
        (birdTop s < topHeight p \<or> birdBottom s > topHeight p + PIPE_GAP))"
  by (induction ps) (auto simp: Let_def gameOver_def)

text \<open>
  C2 as stated fails: after seven frames of 100 ms and one of 50/3 ms without a flap the
  bird is at \<open>y = 502\<close> above the ground line 520. Its inset box (487 to 517) is inside the
  screen and touches no pipe, and the round ends all the same, because \<open>502 + 20 > 520\<close>.
\<close>

theorem inset_boundary_counterexample:
  "gameState nearGround = Playing \<and>
   gameState (update nearGround (50 / 3)) = Gameover \<and>
   birdBottom (update nearGround (50 / 3)) = 517 \<and>
   birdTop (update nearGround (50 / 3)) = 487 \<and>
   groundY (update nearGround (50 / 3)) = 520 \<and>
   \<not> insetCollision (update nearGround (50 / 3))"
  by (simp add: nearGround_eq exec insetCollision_def)

text \<open>
  C2, amended: \<open>update\<close> checks collisions only in the phase 'playing', on the state
  that the frame has moved. The boundary check uses the full half-height of the bird
  (\<open>BIRD_SIZE / 2 = 20\<close>), with no inset; the obstacle check uses the box inset by 5 on
  all sides (half-extent 15). The check changes nothing but the phase.
\<close>

theorem collision_hitboxes:
  "(gameState s \<noteq> Playing \<longrightarrow> update s deltaTime = s) \<and>
   (gameState s = Playing \<longrightarrow>
      update s deltaTime =
        checkCollisions (scrollPipes (timeScale deltaTime) (beforeLoop s deltaTime))) \<and>
   (checkCollisions s = s \<or> checkCollisions s = gameOver s) \<and>
   (gameState (checkCollisions s) = Gameover \<longleftrightarrow>
      gameState s = Gameover \<or>
      y (bird s) + 20 > groundY s \<or> y (bird s) - 20 < 0 \<or>
      (\<exists>p\<in>set (pipes s).
         bird.x (bird s) + 15 > pipe.x p \<and> bird.x (bird s) - 15 < pipe.x p + PIPE_WIDTH \<and>
         (y (bird s) - 15 < topHeight p \<or> y (bird s) + 15 > topHeight p + PIPE_GAP)))"
proof -
  have e: "birdRight s = bird.x (bird s) + 15" "birdLeft s = bird.x (bird s) - 15"
    "birdTop s = y (bird s) - 15" "birdBottom s = y (bird s) + 15"
    by (simp_all add: birdLeft_def birdRight_def birdTop_def birdBottom_def BIRD_SIZE_def)
  have "gameState (checkCollisions s) = Gameover \<longleftrightarrow>
      y (bird s) + 20 > groundY s \<or> y (bird s) - 20 < 0 \<or>
      gameState (checkPipes s (pipes s)) = Gameover"
    by (simp add: checkCollisions_def gameOver_def BIRD_SIZE_def)
  then have "gameState (checkCollisions s) = Gameover \<longleftrightarrow>
      gameState s = Gameover \<or>
      y (bird s) + 20 > groundY s \<or> y (bird s) - 20 < 0 \<or>
      (\<exists>p\<in>set (pipes s).
         bird.x (bird s) + 15 > pipe.x p \<and> bird.x (bird s) - 15 < pipe.x p + PIPE_WIDTH \<and>
         (y (bird s) - 15 < topHeight p \<or> y (bird s) + 15 > topHeight p + PIPE_GAP))"
    unfolding checkPipes_gameState e by blast
  with checkCollisions_cases [of s] show ?thesis
    by (simp add: update_stages)
qed

theorem collision_hitboxes_witness:
  "gameState nearGround = Playing \<and>
   gameState (update nearGround (50 / 3)) = Gameover \<and>
   y (bird (update nearGround (50 / 3))) = 502 \<and>
   groundY (update nearGround (50 / 3)) = 520 \<and>
   gameState (update crashed0 (50 / 3)) = Gameover \<and>
   update crashed0 (50 / 3) = crashed0"
proof -
  have p: "gameState nearGround = Playing"
    by (simp add: nearGround_eq)
  have c: "gameState crashed0 \<noteq> Playing"
    by (simp add: crashed0_eq)
  have b: "y (bird (scrollPipes (timeScale (50 / 3)) (beforeLoop nearGround (50 / 3)))) = 502"
    "groundY (scrollPipes (timeScale (50 / 3)) (beforeLoop nearGround (50 / 3))) = 520"
    by (simp_all add: nearGround_eq timeScale_def updateBird_def constants)
  have "gameState (update nearGround (50 / 3)) = Gameover"
    using p b
      collision_hitboxes [of nearGround "50 / 3"]
      collision_hitboxes [of "scrollPipes (timeScale (50 / 3)) (beforeLoop nearGround (50 / 3))"]
    by simp
  moreover have "update crashed0 (50 / 3) = crashed0"
    using c collision_hitboxes [of crashed0 "50 / 3"] by simp
  ultimately show ?thesis
    using p b by (simp add: crashed0_eq update_stages)
qed

subsection \<open>The elapsed time\<close>

text \<open>
  Below 100 ms the elapsed time is used as it is, also when it is negative.
\<close>

lemma timeScale_below: "d \<le> 100 \<Longrightarrow> timeScale d = d / FRAME_TIME"
  by (simp add: timeScale_def)

lemma timeScale_above: "100 \<le> d \<Longrightarrow> timeScale d = 6"
  by (simp add: timeScale_def constants)

lemma update_above: "100 \<le> d \<Longrightarrow> update s d = update s 100"
  by (simp add: update_stages beforeLoop_def timeScale_above)

text \<open>
  C3 as stated fails: a frame with the elapsed time -50/3 ms is not the frame with the
  elapsed time 0. The velocity goes from -7.5 to -8.05, the bird moves down by 8.05 and the
  pipe moves right by 3.2.
\<close>

theorem negative_delta_counterexample:
  "gameState playing0 = Playing \<and>
   bird (update playing0 0) =
     \<lparr>bird.x = 80, y = 300, velocity = - (15 / 2), rotation = - 25\<rparr> \<and>
   bird (update playing0 (- (50 / 3))) =
     \<lparr>bird.x = 80, y = 6161 / 20, velocity = - (161 / 20), rotation = - 25\<rparr> \<and>
   pipes (update playing0 0) = [\<lparr>pipe.x = 260, topHeight = 395 / 2, passed = False\<rparr>] \<and>
   pipes (update playing0 (- (50 / 3))) =
     [\<lparr>pipe.x = 1316 / 5, topHeight = 395 / 2, passed = False\<rparr>] \<and>
   update playing0 (- (50 / 3)) \<noteq> update playing0 0"
proof -
  have a: "bird (update playing0 0) =
     \<lparr>bird.x = 80, y = 300, velocity = - (15 / 2), rotation = - 25\<rparr>"
    by (simp add: playing0_eq exec)
  have b: "bird (update playing0 (- (50 / 3))) =
     \<lparr>bird.x = 80, y = 6161 / 20, velocity = - (161 / 20), rotation = - 25\<rparr>"
    by (simp add: playing0_eq exec)
  have c: "pipes (update playing0 0) = [\<lparr>pipe.x = 260, topHeight = 395 / 2, passed = False\<rparr>]"
    by (simp add: playing0_eq exec half_def)
  have d: "pipes (update playing0 (- (50 / 3))) =
     [\<lparr>pipe.x = 1316 / 5, topHeight = 395 / 2, passed = False\<rparr>]"
    by (simp add: playing0_eq exec half_def)
  have "update playing0 (- (50 / 3)) \<noteq> update playing0 0"
    using a b by auto
  with a b c d show ?thesis
    by (simp add: playing0_eq)
qed

text \<open>
  C3, amended: \<open>update\<close> clamps the elapsed time from above only. In the phase 'playing'
  a negative elapsed time is used as it is: the velocity drops by
  \<open>GRAVITY * |deltaTime| / FRAME_TIME\<close>, the bird moves by the new velocity times the negative
  scale, and every pipe moves to the right. An elapsed time of 100 ms or more acts as
  100 ms.
\<close>

theorem elapsed_time_clamped_above_only:
  assumes "gameState s = Playing" and "deltaTime < 0"
    and "velocity (bird s) \<le> MAX_FALL_SPEED"
  shows "velocity (bird (update s deltaTime)) =
           velocity (bird s) + GRAVITY * (deltaTime / FRAME_TIME) \<and>
         velocity (bird (update s deltaTime)) < velocity (bird s) \<and>
         y (bird (update s deltaTime)) =
           y (bird s) + velocity (bird (update s deltaTime)) * (deltaTime / FRAME_TIME) \<and>
         pipes (update s deltaTime) =
           filter (\<lambda>p. \<not> pipe.x p + PIPE_WIDTH < 0)
             (map (movePipe (deltaTime / FRAME_TIME) (bird.x (bird s)))
               (pipes (beforeLoop s deltaTime))) \<and>
         (\<forall>p\<in>set (pipes (beforeLoop s deltaTime)).
            pipe.x p < pipe.x (movePipe (deltaTime / FRAME_TIME) (bird.x (bird s)) p)) \<and>
         (\<forall>d\<ge>100. update s d = update s 100)"
proof -
  have t: "timeScale deltaTime = deltaTime / FRAME_TIME"
    using assms(2) by (simp add: timeScale_below)
  have n: "deltaTime / FRAME_TIME < 0"
    using assms(2) by (simp add: constants)
  then have g: "GRAVITY * (deltaTime / FRAME_TIME) < 0"
    by (simp add: GRAVITY_def mult_pos_neg)
  with assms(3) have v: "velocity (bird (update s deltaTime)) =
      velocity (bird s) + GRAVITY * (deltaTime / FRAME_TIME)"
    using assms(1) by (simp add: update_bird t updateBird_def Let_def)
  have yy: "y (bird (update s deltaTime)) =
      y (bird s) + velocity (bird (update s deltaTime)) * (deltaTime / FRAME_TIME)"
    using assms(1) by (simp add: update_bird t updateBird_def Let_def)
  have m: "pipe.x p < pipe.x (movePipe (deltaTime / FRAME_TIME) (bird.x (bird s)) p)" for p
    using n by (simp add: movePipe_def PIPE_SPEED_def mult_pos_neg)
  have a: "\<forall>d\<ge>100. update s d = update s 100"
    using update_above by blast
  have lt: "velocity (bird (update s deltaTime)) < velocity (bird s)"
    using v g by simp
  have ps: "pipes (update s deltaTime) =
      filter (\<lambda>p. \<not> pipe.x p + PIPE_WIDTH < 0)
        (map (movePipe (deltaTime / FRAME_TIME) (bird.x (bird s)))
          (pipes (beforeLoop s deltaTime)))"
    using update_pipes [OF assms(1), of deltaTime] by (simp only: t)
  from v lt yy ps m a show ?thesis
    by blast
qed

theorem elapsed_time_clamped_above_only_witness:
  "gameState playing0 = Playing \<and> - (50 / 3) < (0 :: real) \<and>
   velocity (bird playing0) \<le> MAX_FALL_SPEED \<and>
   velocity (bird playing0) = - (15 / 2) \<and>
   velocity (bird (update playing0 (- (50 / 3)))) = - (161 / 20) \<and>
   y (bird (update playing0 (- (50 / 3)))) = 6161 / 20 \<and>
   update playing0 250 = update playing0 100"
proof -
  have h: "gameState playing0 = Playing" "- (50 / 3) < (0 :: real)"
    "velocity (bird playing0) \<le> MAX_FALL_SPEED"
    by (simp_all add: playing0_eq constants)
  have b0: "velocity (bird playing0) = - (15 / 2)" "y (bird playing0) = 300"
    by (simp_all add: playing0_eq)
  note inst = elapsed_time_clamped_above_only [OF h]
  from inst have "(100 :: real) \<le> 250 \<longrightarrow> update playing0 250 = update playing0 100"
    by blast
  then have a: "update playing0 250 = update playing0 100"
    by simp
  from inst have "velocity (bird (update playing0 (- (50 / 3)))) =
      velocity (bird playing0) + GRAVITY * (- (50 / 3) / FRAME_TIME)"
    by blast
  then have v: "velocity (bird (update playing0 (- (50 / 3)))) = - (161 / 20)"
    by (simp add: b0 constants)
  from inst have "y (bird (update playing0 (- (50 / 3)))) =
      y (bird playing0) + velocity (bird (update playing0 (- (50 / 3)))) * (- (50 / 3) / FRAME_TIME)"
    by blast
  then have "y (bird (update playing0 (- (50 / 3)))) = 6161 / 20"
    by (simp add: v b0 constants)
  with a v h b0 show ?thesis
    by simp
qed

subsection \<open>Scoring\<close>

text \<open>
  C5: in a frame of the phase 'playing', the pipes that enter the loop are the old ones
  followed by the new ones (not passed). The score grows by one for each of them that is not
  yet passed and whose right edge is now left of the bird's \<open>x\<close>, and by nothing else; such
  a pipe leaves the frame with \<open>passed\<close> set, and a pipe that was passed stays passed
  (\<open>movePipe\<close>). After the frame every pipe is passed or has its right edge not yet left
  of the bird. No other operation within a round touches the score or the pipes.
\<close>

theorem score_once_per_pipe:
  "(gameState s = Playing \<longrightarrow>
      (\<exists>new. pipes (beforeLoop s d) = pipes s @ new \<and> (\<forall>p\<in>set new. \<not> passed p)) \<and>
      score (update s d) =
        score s +
        length (filter (crossing (timeScale d) (bird.x (bird s))) (pipes (beforeLoop s d))) \<and>
      pipes (update s d) =
        filter (\<lambda>p. \<not> pipe.x p + PIPE_WIDTH < 0)
          (map (movePipe (timeScale d) (bird.x (bird s))) (pipes (beforeLoop s d))) \<and>
      (\<forall>p\<in>set (pipes (update s d)). passed p \<or> bird.x (bird s) \<le> pipe.x p + PIPE_WIDTH)) \<and>
   (gameState s \<noteq> Playing \<longrightarrow>
      pipes (update s d) = pipes s \<and> score (update s d) = score s) \<and>
   (gameState s \<noteq> Gameover \<longrightarrow>
      pipes (handleInput s) = pipes s \<and> score (handleInput s) = score s) \<and>
   pipes (resizeCanvas w h s) = pipes s \<and> score (resizeCanvas w h s) = score s"
proof -
  have "\<forall>p\<in>set (pipes (update s d)). passed p \<or> bird.x (bird s) \<le> pipe.x p + PIPE_WIDTH"
    if "gameState s = Playing"
    using that movePipe_flag by (auto simp: update_pipes)
  moreover have "pipes (handleInput s) = pipes s \<and> score (handleInput s) = score s"
    if "gameState s \<noteq> Gameover"
    using that by (simp add: handleInput_def split: phase.splits)
  moreover have "pipes (update s d) = pipes s \<and> score (update s d) = score s"
    if "gameState s \<noteq> Playing"
    using that by (simp add: update_stages)
  moreover have "pipes (resizeCanvas w h s) = pipes s \<and> score (resizeCanvas w h s) = score s"
    by (simp add: resizeCanvas_def)
  ultimately show ?thesis
    using beforeLoop_pipes [of s d] update_score [of s d] update_pipes [of s d]
    by blast
qed

theorem score_once_per_pipe_witness:
  "gameState scoring0 = Playing \<and>
   pipes scoring0 =
     [\<lparr>pipe.x = 52 / 5, topHeight = 395 / 2, passed = False\<rparr>,
      \<lparr>pipe.x = 1136 / 5, topHeight = 395 / 2, passed = False\<rparr>] \<and>
   score scoring0 = 0 \<and>
   score (update scoring0 100) = 1 \<and>
   pipes (update scoring0 100) =
     [\<lparr>pipe.x = - (44 / 5), topHeight = 395 / 2, passed = True\<rparr>,
      \<lparr>pipe.x = 208, topHeight = 395 / 2, passed = False\<rparr>] \<and>
   score (update (update scoring0 100) 100) = 1"
proof -
  have p: "gameState scoring0 = Playing"
    by (simp add: scoring0_eq)
  have b: "pipes (beforeLoop scoring0 100) = pipes scoring0"
    by (simp add: scoring0_eq beforeLoop_def timeScale_def updateBird_def constants)
  have u: "pipes (update scoring0 100) =
     [\<lparr>pipe.x = - (44 / 5), topHeight = 395 / 2, passed = True\<rparr>,
      \<lparr>pipe.x = 208, topHeight = 395 / 2, passed = False\<rparr>]"
    using p b score_once_per_pipe [of scoring0 100]
    by (simp add: scoring0_eq movePipe_def timeScale_def constants)
  have s1: "score (update scoring0 100) = 1"
    using p b score_once_per_pipe [of scoring0 100]
    by (simp add: scoring0_eq crossing_def timeScale_def constants)
  have s2: "score (update (update scoring0 100) 100) = 1"
    by (simp add: scoring0_eq exec)
  from p u s1 s2 show ?thesis
    by (simp add: scoring0_eq)
qed

subsection \<open>The new-high-score flag and the stored high score\<close>

text \<open>
  Scoring \<open>k\<close> points in a row, from a state whose score is at most its high score.
\<close>

lemma funpow_scorePoint_flag:
  "score s \<le> highScore s \<Longrightarrow>
   isNewHighScore ((scorePoint ^^ k) s) = (isNewHighScore s \<or> highScore s < score s + k)"
proof (induction k)
  case 0
  then show ?case by simp
next
  case (Suc k)
  then show ?case
    by (auto simp: scorePoint_flag funpow_scorePoint_highScore)
qed

lemma funpow_scorePoint_storage:
  "score s \<le> highScore s \<Longrightarrow>
   localStorage ((scorePoint ^^ k) s) =
     localStorage s @ [Suc (highScore s) ..< Suc (max (highScore s) (score s + k))]"
proof (induction k)
  case 0
  then show ?case by (simp add: max_absorb1)
next
  case (Suc k)
  show ?case
  proof (cases "highScore s < Suc (score s + k)")
    case True
    with Suc.prems have m: "max (highScore s) (score s + k) = score s + k"
      "max (highScore s) (Suc (score s + k)) = Suc (score s + k)"
      by simp_all
    from Suc True show ?thesis
      by (simp add: scorePoint_storage funpow_scorePoint_highScore m)
  next
    case False
    then have m: "max (highScore s) (score s + k) = highScore s"
      "max (highScore s) (Suc (score s + k)) = highScore s"
      by simp_all
    from Suc False show ?thesis
      by (simp add: scorePoint_storage funpow_scorePoint_highScore m)
  qed
qed

lemma update_scoring:
  "\<exists>k. score (update s d) = score ((scorePoint ^^ k) s) \<and>
       highScore (update s d) = highScore ((scorePoint ^^ k) s) \<and>
       isNewHighScore (update s d) = isNewHighScore ((scorePoint ^^ k) s) \<and>
       localStorage (update s d) = localStorage ((scorePoint ^^ k) s)"
proof (cases "gameState s = Playing")
  case False
  then have "update s d = (scorePoint ^^ 0) s"
    by (simp add: update_stages)
  then show ?thesis by metis
next
  case True
  define k where
    "k = length (filter (crossing (timeScale d) (bird.x (bird (beforeLoop s d))))
           (pipes (beforeLoop s d)))"
  have same: "score ((scorePoint ^^ n) s') = score ((scorePoint ^^ n) s) \<and>
      highScore ((scorePoint ^^ n) s') = highScore ((scorePoint ^^ n) s) \<and>
      isNewHighScore ((scorePoint ^^ n) s') = isNewHighScore ((scorePoint ^^ n) s) \<and>
      localStorage ((scorePoint ^^ n) s') = localStorage ((scorePoint ^^ n) s)"
    if "score s' = score s" "highScore s' = highScore s"
      "isNewHighScore s' = isNewHighScore s" "localStorage s' = localStorage s"
    for n s'
    using that
    by (induction n)
       (simp_all add: scorePoint_highScore scorePoint_flag scorePoint_storage)
  from True have "score (update s d) = score ((scorePoint ^^ k) (beforeLoop s d))"
    "highScore (update s d) = highScore ((scorePoint ^^ k) (beforeLoop s d))"
    "isNewHighScore (update s d) = isNewHighScore ((scorePoint ^^ k) (beforeLoop s d))"
    "localStorage (update s d) = localStorage ((scorePoint ^^ k) (beforeLoop s d))"
    by (simp_all add: update_stages scrollPipes_state k_def)
  with same [of "beforeLoop s d" k] show ?thesis
    by (intro exI [of _ k]) simp
qed

lemma update_score_le_highScore:
  assumes "score s \<le> highScore s"
  shows "score (update s d) \<le> highScore (update s d)"
proof -
  from update_scoring [of s d] obtain k where
    "score (update s d) = score ((scorePoint ^^ k) s)"
    "highScore (update s d) = highScore ((scorePoint ^^ k) s)"
    by blast
  with assms show ?thesis
    by (simp add: funpow_scorePoint_highScore)
qed

lemma step_score_le_highScore:
  assumes "score s \<le> highScore s"
  shows "score (step s e) \<le> highScore (step s e)"
proof (cases e)
  case (Update d)
  with assms show ?thesis by (simp add: update_score_le_highScore)
next
  case Input
  with assms show ?thesis
    by (simp add: handleInput_def resetGame_def split: phase.splits)
next
  case (Resize w h)
  with assms show ?thesis by (simp add: resizeCanvas_def)
qed

lemma run_score_le_highScore:
  "score s \<le> highScore s \<Longrightarrow> score (run s evs) \<le> highScore (run s evs)"
  by (induction evs arbitrary: s) (simp_all add: step_score_le_highScore)

text \<open>
  While the window is not resized, a frame takes at most one pipe past the bird: pipes
  are more than 200 apart, a frame moves them by at most \<open>6 * PIPE_SPEED = 19.2\<close>, and a new
  pipe spawns right of the bird.
\<close>

lemma sorted_last_max:
  "sorted_wrt (\<lambda>p q. pipe.x p + PIPE_SPACING < pipe.x q) ps \<Longrightarrow> p \<in> set ps \<Longrightarrow>
   pipe.x p \<le> pipe.x (last ps)"
proof (induction ps)
  case Nil
  then show ?case by simp
next
  case (Cons a ps)
  show ?case
  proof (cases "ps = []")
    case True
    with Cons.prems show ?thesis by simp
  next
    case False
    then have l: "last ps \<in> set ps" by simp
    show ?thesis
    proof (cases "p = a")
      case True
      from Cons.prems(1) l have "pipe.x a + PIPE_SPACING < pipe.x (last ps)"
        by simp
      with True \<open>ps \<noteq> []\<close> show ?thesis
        by (simp add: PIPE_SPACING_def)
    next
      case False
      with Cons show ?thesis by auto
    qed
  qed
qed

lemma sorted_snoc:
  assumes "sorted_wrt (\<lambda>p q. pipe.x p + PIPE_SPACING < pipe.x q) ps"
    and "ps \<noteq> [] \<Longrightarrow> pipe.x (last ps) + PIPE_SPACING < pipe.x n"
  shows "sorted_wrt (\<lambda>p q. pipe.x p + PIPE_SPACING < pipe.x q) (ps @ [n])"
proof -
  have "pipe.x p + PIPE_SPACING < pipe.x n" if "p \<in> set ps" for p
  proof -
    from that have "ps \<noteq> []" by auto
    from assms(2) [OF this] sorted_last_max [OF assms(1) that] show ?thesis
      by simp
  qed
  with assms(1) show ?thesis
    by (simp add: sorted_wrt_append)
qed

lemma sorted_movePipe:
  "sorted_wrt (\<lambda>p q. pipe.x p + PIPE_SPACING < pipe.x q) ps \<Longrightarrow>
   sorted_wrt (\<lambda>p q. pipe.x p + PIPE_SPACING < pipe.x q)
     (filter f (map (movePipe dt bx) ps))"
proof -
  assume "sorted_wrt (\<lambda>p q. pipe.x p + PIPE_SPACING < pipe.x q) ps"
  then have "sorted_wrt (\<lambda>p q. pipe.x p + PIPE_SPACING < pipe.x q) (map (movePipe dt bx) ps)"
    by (simp add: sorted_wrt_map movePipe_def)
  then show ?thesis
    by (rule sorted_wrt_filter)
qed

lemma at_most_one_crossing:
  assumes "sorted_wrt (\<lambda>p q. pipe.x p + PIPE_SPACING < pipe.x q) ps"
    and "\<forall>p\<in>set ps. c p \<longrightarrow> lo \<le> pipe.x p \<and> pipe.x p < lo + PIPE_SPACING"
  shows "length (filter c ps) \<le> 1"
  using assms
proof (induction ps)
  case Nil
  then show ?case by simp
next
  case (Cons a ps)
  show ?case
  proof (cases "c a")
    case False
    with Cons show ?thesis by simp
  next
    case True
    with Cons.prems(2) have a: "lo \<le> pipe.x a" by simp
    have "\<not> c q" if "q \<in> set ps" for q
    proof
      assume "c q"
      with Cons.prems(2) that have "pipe.x q < lo + PIPE_SPACING" by simp
      moreover from Cons.prems(1) that have "pipe.x a + PIPE_SPACING < pipe.x q" by simp
      ultimately show False using a by simp
    qed
    then have "filter c ps = []"
      by (simp add: filter_empty_conv)
    with True show ?thesis by simp
  qed
qed

lemma timeScale_le: "timeScale d \<le> 6"
  by (simp add: timeScale_def constants min_def)

lemma beforeLoop_spaced:
  assumes "spaced w s"
  shows "\<exists>new. pipes (beforeLoop s d) = pipes s @ new \<and>
           (\<forall>p\<in>set new. \<not> passed p \<and> real w * (65 / 100) \<le> pipe.x p) \<and>
           sorted_wrt (\<lambda>p q. pipe.x p + PIPE_SPACING < pipe.x q) (pipes s @ new)"
proof -
  from assms have w: "canvas_width s = w"
    and so: "sorted_wrt (\<lambda>p q. pipe.x p + PIPE_SPACING < pipe.x q) (pipes s)"
    by (simp_all add: spaced_def)
  define s1 where "s1 = (if pipes s = [] then spawnFirstPipe s else s)"
  define s2 where "s2 = s1\<lparr>bird := updateBird (timeScale d) (bird s1)\<rparr>"
  have w2: "canvas_width s2 = w"
    by (simp add: s2_def s1_def w)
  obtain n1 where n1: "pipes s1 = pipes s @ n1"
    "\<forall>p\<in>set n1. \<not> passed p \<and> real w * (65 / 100) \<le> pipe.x p"
    "sorted_wrt (\<lambda>p q. pipe.x p + PIPE_SPACING < pipe.x q) (pipes s @ n1)"
  proof (cases "pipes s = []")
    case True
    then have "pipes s1 = pipes s @
        [\<lparr>pipe.x = real w * (65 / 100),
          topHeight = randoms s 0 * (groundY s - PIPE_GAP - 80 - 80) + 80, passed = False\<rparr>]"
      by (simp add: s1_def spawnFirstPipe_def Math_random_def w)
    with True that show ?thesis by simp
  next
    case False
    with that [of "[]"] so show ?thesis by (simp add: s1_def)
  qed
  have p2: "pipes s2 = pipes s @ n1"
    by (simp add: s2_def n1(1))
  have b: "beforeLoop s d =
      (if pipes s2 = [] \<or> pipe.x (last (pipes s2)) < real (canvas_width s2) - PIPE_SPACING
       then spawnPipe s2 else s2)"
    by (simp add: beforeLoop_def s1_def s2_def Let_def)
  show ?thesis
  proof (cases "pipes s2 = [] \<or>
      pipe.x (last (pipes s2)) < real (canvas_width s2) - PIPE_SPACING")
    case False
    then have "beforeLoop s d = s2"
      by (simp only: b if_False)
    with p2 n1 show ?thesis by auto
  next
    case True
    then have e: "beforeLoop s d = spawnPipe s2"
      by (simp only: b if_True)
    define n where "n = \<lparr>pipe.x = real w,
        topHeight = randoms s2 0 * (groundY s2 - PIPE_GAP - 80 - 80) + 80, passed = False\<rparr>"
    have ps: "pipes (spawnPipe s2) = (pipes s @ n1) @ [n]"
      by (simp add: spawnPipe_def Math_random_def w2 p2 n_def)
    have "sorted_wrt (\<lambda>p q. pipe.x p + PIPE_SPACING < pipe.x q) ((pipes s @ n1) @ [n])"
    proof (rule sorted_snoc [OF n1(3)])
      assume "pipes s @ n1 \<noteq> []"
      then have "pipes s2 \<noteq> []"
        by (simp add: p2)
      with True have "pipe.x (last (pipes s2)) < real (canvas_width s2) - PIPE_SPACING"
        by blast
      then have "pipe.x (last (pipes s @ n1)) < real w - PIPE_SPACING"
        by (simp only: p2 w2)
      then show "pipe.x (last (pipes s @ n1)) + PIPE_SPACING < pipe.x n"
        by (simp add: n_def)
    qed
    moreover have "\<forall>p\<in>set (n1 @ [n]). \<not> passed p \<and> real w * (65 / 100) \<le> pipe.x p"
      using n1(2) by (simp add: n_def mult_left_le)
    ultimately have "pipes (beforeLoop s d) = pipes s @ (n1 @ [n]) \<and>
        (\<forall>p\<in>set (n1 @ [n]). \<not> passed p \<and> real w * (65 / 100) \<le> pipe.x p) \<and>
        sorted_wrt (\<lambda>p q. pipe.x p + PIPE_SPACING < pipe.x q) (pipes s @ (n1 @ [n]))"
      by (simp add: e ps)
    then show ?thesis by blast
  qed
qed

lemma update_one_crossing:
  assumes "spaced w s"
  shows "length (filter (crossing (timeScale d) (bird.x (bird s))) (pipes (beforeLoop s d))) \<le> 1"
proof -
  from assms have bx: "bird.x (bird s) = real w * (2 / 10)"
    and old: "\<forall>p\<in>set (pipes s). passed p \<or> bird.x (bird s) \<le> pipe.x p + PIPE_WIDTH"
    by (simp_all add: spaced_def)
  from beforeLoop_spaced [OF assms, of d] obtain new where new:
    "pipes (beforeLoop s d) = pipes s @ new"
    "\<forall>p\<in>set new. \<not> passed p \<and> real w * (65 / 100) \<le> pipe.x p"
    "sorted_wrt (\<lambda>p q. pipe.x p + PIPE_SPACING < pipe.x q) (pipes s @ new)"
    by blast
  have t: "PIPE_SPEED * timeScale d \<le> 96 / 5"
    using timeScale_le [of d] by (simp add: PIPE_SPEED_def)
  have "bird.x (bird s) - PIPE_WIDTH \<le> pipe.x p \<and>
      pipe.x p < bird.x (bird s) - PIPE_WIDTH + PIPE_SPACING"
    if p: "p \<in> set (pipes s @ new)" and c: "crossing (timeScale d) (bird.x (bird s)) p" for p
  proof -
    from c have np: "\<not> passed p"
      and lt: "pipe.x p - PIPE_SPEED * timeScale d + PIPE_WIDTH < bird.x (bird s)"
      by (simp_all add: crossing_def)
    have lo: "bird.x (bird s) \<le> pipe.x p + PIPE_WIDTH"
    proof (cases "p \<in> set (pipes s)")
      case True
      with old np show ?thesis by blast
    next
      case False
      with p new(2) have "real w * (65 / 100) \<le> pipe.x p" by auto
      then show ?thesis
        by (simp add: bx PIPE_WIDTH_def)
    qed
    from lt t have "pipe.x p < bird.x (bird s) - PIPE_WIDTH + 96 / 5"
      by simp
    with lo show ?thesis
      by (simp add: PIPE_SPACING_def)
  qed
  then have "\<forall>p\<in>set (pipes s @ new). crossing (timeScale d) (bird.x (bird s)) p \<longrightarrow>
      bird.x (bird s) - PIPE_WIDTH \<le> pipe.x p \<and>
      pipe.x p < bird.x (bird s) - PIPE_WIDTH + PIPE_SPACING"
    by blast
  from at_most_one_crossing [OF new(3) this] show ?thesis
    by (simp add: new(1))
qed

lemma update_spaced:
  assumes "spaced w s"
  shows "spaced w (update s d)"
proof (cases "gameState s = Playing")
  case False
  with assms show ?thesis by (simp add: update_stages)
next
  case True
  from assms have w: "canvas_width s = w" and bx: "bird.x (bird s) = real w * (2 / 10)"
    by (simp_all add: spaced_def)
  from beforeLoop_spaced [OF assms, of d] obtain new where new:
    "pipes (beforeLoop s d) = pipes s @ new"
    "sorted_wrt (\<lambda>p q. pipe.x p + PIPE_SPACING < pipe.x q) (pipes s @ new)"
    by blast
  have ps: "pipes (update s d) =
      filter (\<lambda>p. \<not> pipe.x p + PIPE_WIDTH < 0)
        (map (movePipe (timeScale d) (bird.x (bird s))) (pipes s @ new))"
    using update_pipes [OF True, of d] by (simp only: new(1))
  have same: "bird.x (bird (update s d)) = bird.x (bird s)"
    by (simp add: update_bird)
  have a: "sorted_wrt (\<lambda>p q. pipe.x p + PIPE_SPACING < pipe.x q) (pipes (update s d))"
    unfolding ps by (rule sorted_movePipe [OF new(2)])
  have b: "\<forall>p\<in>set (pipes (update s d)).
      passed p \<or> bird.x (bird (update s d)) \<le> pipe.x p + PIPE_WIDTH"
    unfolding ps same using movePipe_flag by auto
  have c: "bird.x (bird (update s d)) = real w * (2 / 10)"
    by (simp only: same bx)
  have e: "canvas_width (update s d) = w"
    using True by (simp add: update_stages w)
  from e c a b show ?thesis
    unfolding spaced_def by (intro conjI)
qed

lemma handleInput_spaced:
  assumes "spaced w s"
  shows "spaced w (handleInput s)"
  using assms
  by (auto simp: spaced_def handleInput_def resetGame_def split: phase.splits)

lemma init_spaced: "spaced w (init w h stored rnd)"
  by (simp add: spaced_def init_def resetGame_def resizeCanvas_def)

lemma run_spaced:
  "spaced w s \<Longrightarrow> \<forall>w' h'. Resize w' h' \<notin> set evs \<Longrightarrow> spaced w (run s evs)"
proof (induction evs arbitrary: s)
  case Nil
  then show ?case by simp
next
  case (Cons e evs)
  have "spaced w (step s e)"
  proof (cases e)
    case (Update d)
    with Cons.prems(1) show ?thesis by (simp add: update_spaced)
  next
    case Input
    with Cons.prems(1) show ?thesis by (simp add: handleInput_spaced)
  next
    case (Resize w' h')
    with Cons.prems(2) show ?thesis by auto
  qed
  with Cons show ?case by simp
qed

lemma run_one_point:
  assumes "\<forall>w' h'. Resize w' h' \<notin> set evs"
  shows "score (update (run (init w h stored rnd) evs) d)
           \<le> Suc (score (run (init w h stored rnd) evs))"
proof (cases "gameState (run (init w h stored rnd) evs) = Playing")
  case False
  then show ?thesis by (simp add: update_stages)
next
  case True
  have "spaced w (run (init w h stored rnd) evs)"
    using init_spaced assms by (rule run_spaced)
  from update_one_crossing [OF this, of d] show ?thesis
    by (simp add: update_score [OF True])
qed

text \<open>
  C7 as stated fails when a frame crosses two obstacles: with the page loaded 3440 wide and
  the window then narrowed to 600, the bird stays at \<open>x = 688\<close> and both pipes of the first
  frame spawn left of it. In that frame the flag goes from false to true and \<open>setItem\<close> is
  called twice, with 1 and with 2.
\<close>

theorem double_persist_counterexample:
  "gameState wide0 = Playing \<and> isNewHighScore wide0 = False \<and>
   score wide0 = 0 \<and> highScore wide0 = 0 \<and> localStorage wide0 = [] \<and>
   isNewHighScore (update wide0 (50 / 3)) = True \<and>
   score (update wide0 (50 / 3)) = 2 \<and>
   highScore (update wide0 (50 / 3)) = 2 \<and>
   localStorage (update wide0 (50 / 3)) = [1, 2]"
  by (simp add: wide0_eq exec half_def)

text \<open>
  C7, amended: in every reachable state \<open>s\<close> and for every frame, the flag is set after the
  frame exactly if it was set before or the score after the frame exceeds the high score
  before it; the high score becomes the larger of the old high score and the new score, and
  it changes only in a frame that leaves the flag set. \<open>setItem\<close> is called with the values
  from the old high score plus one up to the new high score, in this order: once for each
  point by which the score passes the old high score. When the frame crosses one obstacle
  this is exactly one call, with the new score; and a frame crosses at most one obstacle as
  long as the window has not been resized since the page was loaded. The flag, once set,
  stays set under resizes and under inputs until the restart from 'gameover'.
\<close>

theorem new_high_score_flag:
  assumes "s = run (init w h stored rnd) evs"
  shows "isNewHighScore (update s d) = (isNewHighScore s \<or> highScore s < score (update s d)) \<and>
         highScore (update s d) = max (highScore s) (score (update s d)) \<and>
         localStorage (update s d) =
           localStorage s @ [Suc (highScore s) ..< Suc (highScore (update s d))] \<and>
         (highScore s < score (update s d) \<longrightarrow> score (update s d) = Suc (score s) \<longrightarrow>
            localStorage (update s d) = localStorage s @ [score (update s d)]) \<and>
         (\<not> isNewHighScore (update s d) \<longrightarrow> highScore (update s d) = highScore s) \<and>
         ((\<forall>a b. Resize a b \<notin> set evs) \<longrightarrow>
            score (update s d) \<le> Suc (score s) \<and>
            (highScore s < score (update s d) \<longrightarrow>
               localStorage (update s d) = localStorage s @ [score (update s d)])) \<and>
         (isNewHighScore s \<longrightarrow> isNewHighScore (resizeCanvas w' h' s)) \<and>
         (isNewHighScore s \<longrightarrow> gameState s \<noteq> Gameover \<longrightarrow> isNewHighScore (handleInput s))"
proof -
  have inv: "score s \<le> highScore s"
    unfolding assms by (rule run_score_le_highScore) simp
  from update_scoring [of s d] obtain k where k:
    "score (update s d) = score ((scorePoint ^^ k) s)"
    "highScore (update s d) = highScore ((scorePoint ^^ k) s)"
    "isNewHighScore (update s d) = isNewHighScore ((scorePoint ^^ k) s)"
    "localStorage (update s d) = localStorage ((scorePoint ^^ k) s)"
    by blast
  have sc: "score (update s d) = score s + k"
    by (simp add: k)
  have hs: "highScore (update s d) = max (highScore s) (score (update s d))"
    by (simp add: k funpow_scorePoint_highScore [OF inv])
  have fl: "isNewHighScore (update s d) = (isNewHighScore s \<or> highScore s < score (update s d))"
    by (simp add: k funpow_scorePoint_flag [OF inv])
  have st: "localStorage (update s d) =
      localStorage s @ [Suc (highScore s) ..< Suc (highScore (update s d))]"
    by (simp add: k funpow_scorePoint_storage [OF inv] funpow_scorePoint_highScore [OF inv])
  have one: "localStorage (update s d) = localStorage s @ [score (update s d)]"
    if "highScore s < score (update s d)" "score (update s d) = Suc (score s)"
  proof -
    from that inv have "highScore s = score s" by simp
    moreover from that hs have "highScore (update s d) = Suc (score s)" by simp
    ultimately show ?thesis using st that by simp
  qed
  have rz: "isNewHighScore (resizeCanvas w' h' s) = isNewHighScore s"
    by (simp add: resizeCanvas_def)
  have hi: "isNewHighScore (handleInput s) = isNewHighScore s" if "gameState s \<noteq> Gameover"
    using that by (simp add: handleInput_def split: phase.splits)
  have keep: "highScore (update s d) = highScore s" if "\<not> isNewHighScore (update s d)"
    using that fl hs by (simp add: max_def)
  have nr: "score (update s d) \<le> Suc (score s) \<and>
      (highScore s < score (update s d) \<longrightarrow>
         localStorage (update s d) = localStorage s @ [score (update s d)])"
    if "\<forall>a b. Resize a b \<notin> set evs"
  proof -
    from that have le: "score (update s d) \<le> Suc (score s)"
      unfolding assms by (rule run_one_point)
    moreover have "score (update s d) = Suc (score s)" if "highScore s < score (update s d)"
      using that le inv by simp
    ultimately show ?thesis
      using one by blast
  qed
  from fl hs st one keep nr rz hi show ?thesis
    by blast
qed

theorem new_high_score_flag_witness:
  "isNewHighScore scoring0 = False \<and> highScore scoring0 = 0 \<and> localStorage scoring0 = [] \<and>
   score (update scoring0 100) = 1 \<and>
   isNewHighScore (update scoring0 100) = True \<and>
   highScore (update scoring0 100) = 1 \<and>
   localStorage (update scoring0 100) = [1] \<and>
   isNewHighScore (update (update scoring0 100) 100) = True \<and>
   localStorage (update (update scoring0 100) 100) = [1]"
proof -
  have r: "scoring0 = run (init 400 600 None half)
     ([Input, Input] @
      [Update 100, Update 100, Update 100, Input,
       Update 100, Update 100, Update 100, Update 100, Input,
       Update 100, Update 100, Update 100, Input,
       Update 100, Update 100, Update 100])"
    unfolding run_append by (simp only: scoring0_def playing0_def)
  have r': "update scoring0 100 = run (init 400 600 None half)
     (([Input, Input] @
       [Update 100, Update 100, Update 100, Input,
        Update 100, Update 100, Update 100, Update 100, Input,
        Update 100, Update 100, Update 100, Input,
        Update 100, Update 100, Update 100]) @ [Update 100])"
    unfolding run_snoc by (simp only: r step.simps)
  have f: "isNewHighScore scoring0 = False" "highScore scoring0 = 0" "localStorage scoring0 = []"
    by (simp_all add: scoring0_eq)
  have sc: "score (update scoring0 100) = 1" "score (update (update scoring0 100) 100) = 1"
    by (simp_all add: scoring0_eq exec)
  note one = new_high_score_flag [OF r, of 100]
  note two = new_high_score_flag [OF r', of 100]
  from one have fl: "isNewHighScore (update scoring0 100)"
    by (simp add: f sc)
  from one have hs: "highScore (update scoring0 100) = 1"
    by (simp add: f sc)
  from one have st: "localStorage (update scoring0 100) = [1]"
    by (simp add: f sc hs)
  from two have fl2: "isNewHighScore (update (update scoring0 100) 100)"
    by (simp add: fl)
  from two have "highScore (update (update scoring0 100) 100) = 1"
    by (simp add: hs sc)
  with two have st2: "localStorage (update (update scoring0 100) 100) = [1]"
    by (simp add: st hs)
  from f sc fl hs st fl2 st2 show ?thesis
    by simp
qed

subsection \<open>Splitting the elapsed time into frames\<close>

text \<open>
  Frames do nothing outside the phase 'playing', so a run of frames that ends in this phase
  was in it throughout, and the bird went through \<open>updateBird\<close> once per frame.
\<close>

lemma run_updates_not_playing:
  "gameState s \<noteq> Playing \<Longrightarrow> run s (map Update ds) = s"
  by (induction ds) (simp_all add: update_stages)

lemma run_updates_bird:
  "gameState (run s (map Update ds)) = Playing \<Longrightarrow>
   bird (run s (map Update ds)) = foldl (\<lambda>b d. updateBird (timeScale d) b) (bird s) ds"
proof (induction ds arbitrary: s)
  case Nil
  then show ?case by simp
next
  case (Cons d ds)
  have p: "gameState s = Playing"
  proof (rule ccontr)
    assume "gameState s \<noteq> Playing"
    then have "run s (map Update (d # ds)) = s"
      by (rule run_updates_not_playing)
    with Cons.prems \<open>gameState s \<noteq> Playing\<close> show False by simp
  qed
  from Cons.prems have "gameState (run (update s d) (map Update ds)) = Playing"
    by simp
  from Cons.IH [OF this] p show ?case
    by (simp add: update_bird)
qed

lemma fold_velocity:
  assumes "velocity b \<le> MAX_FALL_SPEED" and "\<forall>t\<in>set ts. 0 \<le> t"
  shows "velocity (foldl (\<lambda>b t. updateBird t b) b ts) =
           min (velocity b + GRAVITY * sum_list ts) MAX_FALL_SPEED"
  using assms
proof (induction ts arbitrary: b)
  case Nil
  then show ?case by simp
next
  case (Cons t ts)
  have g: "0 \<le> GRAVITY * sum_list ts" "0 \<le> GRAVITY * t"
    using Cons.prems(2) by (simp_all add: GRAVITY_def sum_list_nonneg)
  have le: "velocity (updateBird t b) \<le> MAX_FALL_SPEED"
    by (rule updateBird_velocity_le)
  have v: "velocity (updateBird t b) = min (velocity b + GRAVITY * t) MAX_FALL_SPEED"
    by (simp add: updateBird_def Let_def min_def)
  have "velocity (foldl (\<lambda>b t. updateBird t b) (updateBird t b) ts) =
      min (velocity (updateBird t b) + GRAVITY * sum_list ts) MAX_FALL_SPEED"
    using Cons.prems(2) by (intro Cons.IH [OF le]) simp
  also have "\<dots> = min (velocity b + GRAVITY * (t + sum_list ts)) MAX_FALL_SPEED"
    using g unfolding v by (simp add: min_def algebra_simps)
  finally show ?case by simp
qed

lemma fold_y:
  assumes "velocity b + GRAVITY * sum_list ts \<le> MAX_FALL_SPEED" and "\<forall>t\<in>set ts. 0 \<le> t"
  shows "y (foldl (\<lambda>b t. updateBird t b) b ts) =
           y b + velocity b * sum_list ts +
           GRAVITY * ((sum_list ts)\<^sup>2 + sum_list (map (\<lambda>t. t\<^sup>2) ts)) / 2"
  using assms
proof (induction ts arbitrary: b)
  case Nil
  then show ?case by simp
next
  case (Cons t ts)
  have g: "0 \<le> GRAVITY * sum_list ts" "0 \<le> GRAVITY * t"
    using Cons.prems(2) by (simp_all add: GRAVITY_def sum_list_nonneg)
  with Cons.prems(1) have nc: "velocity b + GRAVITY * t \<le> MAX_FALL_SPEED"
    by (simp add: algebra_simps)
  then have v: "velocity (updateBird t b) = velocity b + GRAVITY * t"
    and yy: "y (updateBird t b) = y b + (velocity b + GRAVITY * t) * t"
    by (simp_all add: updateBird_def Let_def)
  have "velocity (updateBird t b) + GRAVITY * sum_list ts \<le> MAX_FALL_SPEED"
    using Cons.prems(1) by (simp add: v algebra_simps)
  from Cons.IH [OF this] Cons.prems(2)
  have "y (foldl (\<lambda>b t. updateBird t b) (updateBird t b) ts) =
      y (updateBird t b) + velocity (updateBird t b) * sum_list ts +
      GRAVITY * ((sum_list ts)\<^sup>2 + sum_list (map (\<lambda>t. t\<^sup>2) ts)) / 2"
    by simp
  then show ?case
    by (simp add: v yy power2_eq_square algebra_simps)
qed

lemma foldl_timeScale:
  "foldl (\<lambda>b d. updateBird (timeScale d) b) b ds =
     foldl (\<lambda>b t. updateBird t b) b (map timeScale ds)"
  by (induction ds arbitrary: b) simp_all

lemma map_timeScale:
  "\<forall>d\<in>set ds. d \<le> 100 \<Longrightarrow> map timeScale ds = map (\<lambda>d. d / FRAME_TIME) ds"
  by (simp add: timeScale_def)

lemma sum_list_scaled: "sum_list (map (\<lambda>d. d / c) ds) = sum_list ds / (c :: real)"
  by (induction ds) (simp_all add: add_divide_distrib)

lemma run_updates_velocity:
  assumes "\<forall>d\<in>set ds. 0 \<le> d \<and> d \<le> 100"
    and "velocity (bird s) \<le> MAX_FALL_SPEED"
    and "gameState (run s (map Update ds)) = Playing"
  shows "velocity (bird (run s (map Update ds))) =
           min (velocity (bird s) + GRAVITY * (sum_list ds / FRAME_TIME)) MAX_FALL_SPEED"
proof -
  have m: "map timeScale ds = map (\<lambda>d. d / FRAME_TIME) ds"
    using assms(1) by (intro map_timeScale) simp
  have n: "\<forall>t\<in>set (map timeScale ds). 0 \<le> t"
    using assms(1) by (auto intro: timeScale_nonneg)
  from fold_velocity [OF assms(2) n] show ?thesis
    by (simp add: run_updates_bird [OF assms(3)] foldl_timeScale)
       (simp add: m sum_list_scaled)
qed

lemma run_updates_y:
  assumes "\<forall>d\<in>set ds. 0 \<le> d \<and> d \<le> 100"
    and "velocity (bird s) + GRAVITY * (sum_list ds / FRAME_TIME) \<le> MAX_FALL_SPEED"
    and "gameState (run s (map Update ds)) = Playing"
  shows "y (bird (run s (map Update ds))) =
           y (bird s) + velocity (bird s) * (sum_list ds / FRAME_TIME) +
           GRAVITY * ((sum_list ds / FRAME_TIME)\<^sup>2 +
                      sum_list (map (\<lambda>d. (d / FRAME_TIME)\<^sup>2) ds)) / 2"
proof -
  have m: "map timeScale ds = map (\<lambda>d. d / FRAME_TIME) ds"
    using assms(1) by (intro map_timeScale) simp
  have n: "\<forall>t\<in>set (map timeScale ds). 0 \<le> t"
    using assms(1) by (auto intro: timeScale_nonneg)
  have c: "velocity (bird s) + GRAVITY * sum_list (map timeScale ds) \<le> MAX_FALL_SPEED"
    using assms(2) by (simp add: m sum_list_scaled)
  have q: "map (\<lambda>t. t\<^sup>2) (map timeScale ds) = map (\<lambda>d. (d / FRAME_TIME)\<^sup>2) ds"
    using assms(1) by (simp add: timeScale_def)
  have "y (bird (run s (map Update ds))) =
      y (foldl (\<lambda>b t. updateBird t b) (bird s) (map timeScale ds))"
    by (simp add: run_updates_bird [OF assms(3)] foldl_timeScale)
  also note fold_y [OF c n]
  finally show ?thesis
    unfolding q by (simp add: m sum_list_scaled)
qed

text \<open>
  C1 as stated fails: from the started round, one frame of 100/3 ms leaves the bird at
  \<open>y = 287.2\<close> and two frames of 50/3 ms leave it at \<open>y = 286.65\<close>: a difference of 0.55,
  with exact arithmetic.
\<close>

theorem tick_splitting_counterexample:
  "(0 :: real) \<le> 100 / 3 \<and> (100 / 3 :: real) < 100 \<and>
   (0 :: real) \<le> 50 / 3 \<and> (50 / 3 :: real) < 100 \<and>
   sum_list [100 / 3 :: real] = sum_list [50 / 3, 50 / 3] \<and>
   gameState playing0 = Playing \<and>
   gameState (run playing0 [Update (100 / 3)]) = Playing \<and>
   gameState (run playing0 [Update (50 / 3), Update (50 / 3)]) = Playing \<and>
   y (bird (run playing0 [Update (100 / 3)])) = 1436 / 5 \<and>
   y (bird (run playing0 [Update (50 / 3), Update (50 / 3)])) = 5733 / 20 \<and>
   y (bird (run playing0 [Update (100 / 3)])) -
     y (bird (run playing0 [Update (50 / 3), Update (50 / 3)])) = 11 / 20"
proof -
  have a: "bird (run playing0 [Update (100 / 3)]) =
      \<lparr>bird.x = 80, y = 1436 / 5, velocity = - (32 / 5), rotation = - 25\<rparr>"
    by (simp add: playing0_eq exec)
  have b: "bird (run playing0 [Update (50 / 3), Update (50 / 3)]) =
      \<lparr>bird.x = 80, y = 5733 / 20, velocity = - (32 / 5), rotation = - 25\<rparr>"
    by (simp add: playing0_eq exec half_def)
  have p: "gameState (run playing0 [Update (100 / 3)]) = Playing"
    "gameState (run playing0 [Update (50 / 3), Update (50 / 3)]) = Playing"
    by (simp_all add: playing0_eq exec half_def)
  from a b p show ?thesis
    by (simp add: playing0_eq)
qed

text \<open>
  C1, amended: take two sequences of elapsed times between 0 and 100 ms with the same sum,
  run as frames from the same state with velocity at most \<open>MAX_FALL_SPEED\<close>, the phase
  staying 'playing' and no flap. The final velocity is the same,
  \<open>min (v + GRAVITY * T / FRAME_TIME) MAX_FALL_SPEED\<close>. The final position is not: while the
  clamp is not reached it is \<open>y + v * S + GRAVITY * (S\<^sup>2 + Q) / 2\<close>, with \<open>S\<close> the sum and
  \<open>Q\<close> the sum of the squares of the scaled times, so two splittings differ by
  \<open>GRAVITY / 2\<close> times the difference of their sums of squares.
\<close>

theorem tick_splitting:
  assumes "\<forall>d\<in>set ds. 0 \<le> d \<and> d \<le> 100" and "\<forall>d\<in>set es. 0 \<le> d \<and> d \<le> 100"
    and "sum_list ds = sum_list es"
    and "velocity (bird s) \<le> MAX_FALL_SPEED"
    and "gameState (run s (map Update ds)) = Playing"
    and "gameState (run s (map Update es)) = Playing"
  shows "velocity (bird (run s (map Update ds))) = velocity (bird (run s (map Update es))) \<and>
         velocity (bird (run s (map Update ds))) =
           min (velocity (bird s) + GRAVITY * (sum_list ds / FRAME_TIME)) MAX_FALL_SPEED \<and>
         (velocity (bird s) + GRAVITY * (sum_list ds / FRAME_TIME) \<le> MAX_FALL_SPEED \<longrightarrow>
            y (bird (run s (map Update ds))) =
              y (bird s) + velocity (bird s) * (sum_list ds / FRAME_TIME) +
              GRAVITY * ((sum_list ds / FRAME_TIME)\<^sup>2 +
                         sum_list (map (\<lambda>d. (d / FRAME_TIME)\<^sup>2) ds)) / 2 \<and>
            y (bird (run s (map Update ds))) - y (bird (run s (map Update es))) =
              GRAVITY * (sum_list (map (\<lambda>d. (d / FRAME_TIME)\<^sup>2) ds) -
                         sum_list (map (\<lambda>d. (d / FRAME_TIME)\<^sup>2) es)) / 2)"
proof -
  note vd = run_updates_velocity [OF assms(1,4,5)]
  note ve = run_updates_velocity [OF assms(2,4,6)]
  have "y (bird (run s (map Update ds))) =
      y (bird s) + velocity (bird s) * (sum_list ds / FRAME_TIME) +
      GRAVITY * ((sum_list ds / FRAME_TIME)\<^sup>2 +
                 sum_list (map (\<lambda>d. (d / FRAME_TIME)\<^sup>2) ds)) / 2 \<and>
    y (bird (run s (map Update ds))) - y (bird (run s (map Update es))) =
      GRAVITY * (sum_list (map (\<lambda>d. (d / FRAME_TIME)\<^sup>2) ds) -
                 sum_list (map (\<lambda>d. (d / FRAME_TIME)\<^sup>2) es)) / 2"
    if c: "velocity (bird s) + GRAVITY * (sum_list ds / FRAME_TIME) \<le> MAX_FALL_SPEED"
  proof -
    from c have c': "velocity (bird s) + GRAVITY * (sum_list es / FRAME_TIME) \<le> MAX_FALL_SPEED"
      by (simp add: assms(3))
    note yd = run_updates_y [OF assms(1) c assms(5)]
    note ye = run_updates_y [OF assms(2) c' assms(6)]
    have "y (bird (run s (map Update ds))) - y (bird (run s (map Update es))) =
      GRAVITY * (sum_list (map (\<lambda>d. (d / FRAME_TIME)\<^sup>2) ds) -
                 sum_list (map (\<lambda>d. (d / FRAME_TIME)\<^sup>2) es)) / 2"
      unfolding yd ye by (simp add: assms(3) field_simps)
    with yd show ?thesis by blast
  qed
  moreover have "velocity (bird (run s (map Update ds))) =
      velocity (bird (run s (map Update es)))"
    unfolding vd ve by (simp add: assms(3))
  ultimately show ?thesis
    using vd by blast
qed

theorem tick_splitting_witness:
  "velocity (bird (run playing0 (map Update [100 / 3]))) = - (32 / 5) \<and>
   velocity (bird (run playing0 (map Update [50 / 3, 50 / 3]))) = - (32 / 5) \<and>
   y (bird (run playing0 (map Update [100 / 3]))) = 1436 / 5 \<and>
   y (bird (run playing0 (map Update [100 / 3]))) -
     y (bird (run playing0 (map Update [50 / 3, 50 / 3]))) = 11 / 20"
proof -
  have h: "\<forall>d\<in>set [100 / 3 :: real]. 0 \<le> d \<and> d \<le> 100"
    "\<forall>d\<in>set [50 / 3, 50 / 3 :: real]. 0 \<le> d \<and> d \<le> 100"
    "sum_list [100 / 3 :: real] = sum_list [50 / 3, 50 / 3]"
    "velocity (bird playing0) \<le> MAX_FALL_SPEED"
    by (simp_all add: playing0_eq constants)
  have p: "gameState (run playing0 (map Update [100 / 3])) = Playing"
    "gameState (run playing0 (map Update [50 / 3, 50 / 3])) = Playing"
    by (simp_all add: playing0_eq exec half_def)
  have b0: "velocity (bird playing0) = - (15 / 2)" "y (bird playing0) = 300"
    by (simp_all add: playing0_eq)
  from tick_splitting [OF h p] show ?thesis
    by (simp add: b0 constants power2_eq_square)
qed

end
